theory Spec2Isabelle
  imports Complex_Main "HOL-Library.Word"
begin

section \<open>JavaScript numbers\<close>

text \<open>
  A JavaScript number is an IEEE double. The model keeps the finite ones as exact
  rationals and adds the two infinities and NaN, which the code reaches by dividing by
  a zero stride. The model agrees with the program whenever no intermediate value is
  rounded, which is the case for element counts, strides in quarter words and vertex
  counts that divide evenly. Negative zero is not told apart from zero.
\<close>

datatype jsnum = Num rat | PosInf | NegInf | NaN

definition trunc :: "rat \<Rightarrow> int" where
  "trunc r = (if 0 \<le> r then \<lfloor>r\<rfloor> else \<lceil>r\<rceil>)"

fun js_add :: "jsnum \<Rightarrow> jsnum \<Rightarrow> jsnum" where
  "js_add (Num a) (Num b) = Num (a + b)"
| "js_add NaN y = NaN"
| "js_add x NaN = NaN"
| "js_add PosInf NegInf = NaN"
| "js_add NegInf PosInf = NaN"
| "js_add PosInf y = PosInf"
| "js_add x PosInf = PosInf"
| "js_add NegInf y = NegInf"
| "js_add x NegInf = NegInf"

definition inf_signed :: "bool \<Rightarrow> jsnum" where
  "inf_signed positive = (if positive then PosInf else NegInf)"

fun js_mul :: "jsnum \<Rightarrow> jsnum \<Rightarrow> jsnum" where
  "js_mul (Num a) (Num b) = Num (a * b)"
| "js_mul NaN y = NaN"
| "js_mul x NaN = NaN"
| "js_mul (Num a) PosInf = (if a = 0 then NaN else inf_signed (0 < a))"
| "js_mul (Num a) NegInf = (if a = 0 then NaN else inf_signed (a < 0))"
| "js_mul PosInf (Num b) = (if b = 0 then NaN else inf_signed (0 < b))"
| "js_mul NegInf (Num b) = (if b = 0 then NaN else inf_signed (b < 0))"
| "js_mul PosInf PosInf = PosInf"
| "js_mul PosInf NegInf = NegInf"
| "js_mul NegInf PosInf = NegInf"
| "js_mul NegInf NegInf = PosInf"

fun js_div :: "jsnum \<Rightarrow> jsnum \<Rightarrow> jsnum" where
  "js_div (Num a) (Num b) =
     (if b = 0 then (if a = 0 then NaN else inf_signed (0 < a)) else Num (a / b))"
| "js_div NaN y = NaN"
| "js_div x NaN = NaN"
| "js_div (Num a) y = Num 0"
| "js_div PosInf (Num b) = inf_signed (0 \<le> b)"
| "js_div NegInf (Num b) = inf_signed (b < 0)"
| "js_div x y = NaN"

text \<open>The remainder operator \<^verbatim>\<open>%\<close>: the result has the sign of the dividend.\<close>

fun js_rem :: "jsnum \<Rightarrow> jsnum \<Rightarrow> jsnum" where
  "js_rem (Num a) (Num b) = (if b = 0 then NaN else Num (a - b * of_int (trunc (a / b))))"
| "js_rem (Num a) PosInf = Num a"
| "js_rem (Num a) NegInf = Num a"
| "js_rem x y = NaN"

text \<open>
  \<^verbatim>\<open>x | 0\<close> truncates a finite number and sends NaN and the infinities to 0. The
  wrap-around of the 32-bit conversion is left out: the operand is an element position,
  and positions stay below \<open>2^31\<close>.
\<close>

fun js_or0 :: "jsnum \<Rightarrow> jsnum" where
  "js_or0 (Num r) = Num (of_int (trunc r))"
| "js_or0 x = Num 0"

text \<open>Storing a number in a \<^verbatim>\<open>Uint16Array\<close> truncates it and wraps it modulo \<open>2^16\<close>.\<close>

fun to_uint16 :: "jsnum \<Rightarrow> 16 word" where
  "to_uint16 (Num r) = word_of_int (trunc r)"
| "to_uint16 x = 0"

definition of_uint16 :: "16 word \<Rightarrow> jsnum" where
  "of_uint16 w = Num (of_nat (unat w))"

text \<open>An array position: the natural number a property key denotes, if it denotes one.\<close>

fun as_position :: "jsnum \<Rightarrow> nat option" where
  "as_position (Num r) = (if 0 \<le> r \<and> of_int \<lfloor>r\<rfloor> = r then Some (nat \<lfloor>r\<rfloor>) else None)"
| "as_position x = None"

section \<open>Typed arrays\<close>

text \<open>
  The two kinds of typed array the program itself constructs. A \<^verbatim>\<open>Float32Array\<close>
  is given by the values it holds (the rounding of a stored number to single precision
  is not modelled), a \<^verbatim>\<open>Uint16Array\<close> by 16-bit words.
\<close>

datatype typed_array = Float32Array "jsnum list" | Uint16Array "16 word list"

datatype array_ctor = Float32 | Uint16

fun ctor_of :: "typed_array \<Rightarrow> array_ctor" where
  "ctor_of (Float32Array xs) = Float32"
| "ctor_of (Uint16Array ws) = Uint16"

fun ta_length :: "typed_array \<Rightarrow> nat" where
  "ta_length (Float32Array xs) = length xs"
| "ta_length (Uint16Array ws) = length ws"

text \<open>\<^verbatim>\<open>new C(n)\<close>: \<open>n\<close> elements, all zero.\<close>

fun ta_new :: "array_ctor \<Rightarrow> nat \<Rightarrow> typed_array" where
  "ta_new Float32 n = Float32Array (replicate n (Num 0))"
| "ta_new Uint16 n = Uint16Array (replicate n 0)"

text \<open>Reading \<^verbatim>\<open>a[k]\<close> gives \<^verbatim>\<open>undefined\<close> (here \<open>None\<close>) out of range.\<close>

fun ta_get :: "typed_array \<Rightarrow> nat \<Rightarrow> jsnum option" where
  "ta_get (Float32Array xs) k = (if k < length xs then Some (xs ! k) else None)"
| "ta_get (Uint16Array ws) k = (if k < length ws then Some (of_uint16 (ws ! k)) else None)"

text \<open>Writing \<^verbatim>\<open>a[k] = v\<close> out of range is ignored.\<close>

fun ta_put :: "typed_array \<Rightarrow> nat \<Rightarrow> jsnum \<Rightarrow> typed_array" where
  "ta_put (Float32Array xs) k v = Float32Array (if k < length xs then xs[k := v] else xs)"
| "ta_put (Uint16Array ws) k v =
     Uint16Array (if k < length ws then ws[k := to_uint16 v] else ws)"

fun ta_values :: "typed_array \<Rightarrow> jsnum list" where
  "ta_values (Float32Array xs) = xs"
| "ta_values (Uint16Array ws) = map of_uint16 ws"

datatype js_error = Error string | TypeError | RangeError | OutsideModel

fun put_all :: "typed_array \<Rightarrow> nat \<Rightarrow> jsnum list \<Rightarrow> typed_array" where
  "put_all t k [] = t"
| "put_all t k (v # vs) = put_all (ta_put t k v) (Suc k) vs"

text \<open>\<^verbatim>\<open>target.set(source, offset)\<close> copies with conversion, or raises a RangeError.\<close>

definition ta_set :: "typed_array \<Rightarrow> typed_array \<Rightarrow> nat \<Rightarrow> js_error + typed_array" where
  "ta_set target source offset =
     (if ta_length target < offset + ta_length source then Inl RangeError
      else Inr (put_all target offset (ta_values source)))"

section \<open>The store: Buffer objects and typed-array objects\<close>

text \<open>
  Buffers are compared by identity (\<^verbatim>\<open>indexOf\<close>, \<^verbatim>\<open>!==\<close>) and their arrays are
  mutated in place, so both live in a store and the program holds references to them.
  A reference is the position of the object in the store; a new object goes at the end.
\<close>

text \<open>
  Modelled from the spec: the class \<^verbatim>\<open>Buffer\<close> (\<^verbatim>\<open>./Buffer\<close> is not among the
  sources). It owns one typed array (\<open>data\<close>) and an index-buffer flag; it is
  constructed from an array, by default an empty one; \<^verbatim>\<open>destroy()\<close> releases the array.
\<close>

record Buffer =
  data :: "nat option"
  index :: bool

record store =
  bufs :: "Buffer list"
  arrs :: "typed_array list"

definition alloc_array :: "store \<Rightarrow> typed_array \<Rightarrow> store \<times> nat" where
  "alloc_array s a = (s\<lparr>arrs := arrs s @ [a]\<rparr>, length (arrs s))"

definition new_Buffer :: "store \<Rightarrow> nat \<Rightarrow> store \<times> nat" where
  "new_Buffer s a = (s\<lparr>bufs := bufs s @ [\<lparr>data = Some a, index = False\<rparr>]\<rparr>, length (bufs s))"

definition new_Buffer_default :: "store \<Rightarrow> store \<times> nat" where
  "new_Buffer_default s = (case alloc_array s (Float32Array []) of (s1, a) \<Rightarrow> new_Buffer s1 a)"

definition Buffer_destroy :: "store \<Rightarrow> nat \<Rightarrow> store" where
  "Buffer_destroy s b = s\<lparr>bufs := (bufs s)[b := (bufs s ! b)\<lparr>data := None\<rparr>]\<rparr>"

definition set_data :: "store \<Rightarrow> nat \<Rightarrow> nat \<Rightarrow> store" where
  "set_data s b a = s\<lparr>bufs := (bufs s)[b := (bufs s ! b)\<lparr>data := Some a\<rparr>]\<rparr>"

definition set_index :: "store \<Rightarrow> nat \<Rightarrow> store" where
  "set_index s b = s\<lparr>bufs := (bufs s)[b := (bufs s ! b)\<lparr>index := True\<rparr>]\<rparr>"

text \<open>\<^verbatim>\<open>buffer.data\<close> followed by a property access: a TypeError when the data is null.\<close>

definition data_of :: "store \<Rightarrow> nat \<Rightarrow> typed_array option" where
  "data_of s b = (case data (bufs s ! b) of None \<Rightarrow> None | Some a \<Rightarrow> Some (arrs s ! a))"

section \<open>Attributes and the attribute map\<close>

text \<open>
  Modelled from the spec: the class \<^verbatim>\<open>Attribute\<close> (\<^verbatim>\<open>./Attribute\<close> is not among
  the sources), a descriptor that stores the arguments of its constructor. An argument
  the caller leaves out is \<open>None\<close>.
\<close>

record Attribute =
  buffer :: nat
  size' :: nat
  normalized :: bool
  type :: nat
  stride :: "nat option"
  start :: "nat option"
  instance' :: bool

definition new_Attribute ::
  "nat \<Rightarrow> nat \<Rightarrow> bool \<Rightarrow> nat \<Rightarrow> nat option \<Rightarrow> nat option \<Rightarrow> bool \<Rightarrow> Attribute" where
  "new_Attribute b sz nrm ty sd st inst =
     \<lparr>buffer = b, size' = sz, normalized = nrm, type = ty, stride = sd, start = st,
      instance' = inst\<rparr>"

text \<open>
  The attribute map is a plain object, and \<^verbatim>\<open>interleave\<close> enumerates it with
  \<^verbatim>\<open>for ... in\<close>, so the order of its keys matters: keys that are array indices come
  first, in ascending order, then the other keys in the order of their creation. The
  map is the list of its entries in that order.
\<close>

definition is_digit :: "char \<Rightarrow> bool" where
  "is_digit c = (48 \<le> (of_char c :: nat) \<and> (of_char c :: nat) \<le> 57)"

definition decimal :: "string \<Rightarrow> nat" where
  "decimal s = foldl (\<lambda>n c. 10 * n + ((of_char c :: nat) - 48)) 0 s"

definition array_index :: "string \<Rightarrow> nat option" where
  "array_index s =
     (if s \<noteq> [] \<and> list_all is_digit s \<and> (length s = 1 \<or> hd s \<noteq> CHR ''0'')
         \<and> decimal s < 4294967295
      then Some (decimal s) else None)"

fun obj_insert :: "(string \<times> 'v) list \<Rightarrow> string \<Rightarrow> nat \<Rightarrow> 'v \<Rightarrow> (string \<times> 'v) list" where
  "obj_insert [] k n v = [(k, v)]"
| "obj_insert ((k', v') # m) k n v =
     (case array_index k' of
        Some n' \<Rightarrow> if n' < n then (k', v') # obj_insert m k n v else (k, v) # (k', v') # m
      | None \<Rightarrow> (k, v) # (k', v') # m)"

definition obj_get :: "(string \<times> 'v) list \<Rightarrow> string \<Rightarrow> 'v option" where
  "obj_get m k = map_of m k"

definition obj_set :: "(string \<times> 'v) list \<Rightarrow> string \<Rightarrow> 'v \<Rightarrow> (string \<times> 'v) list" where
  "obj_set m k v =
     (case map_of m k of
        Some old \<Rightarrow> map (\<lambda>(k', v'). if k' = k then (k', v) else (k', v')) m
      | None \<Rightarrow> (case array_index k of Some n \<Rightarrow> obj_insert m k n v | None \<Rightarrow> m @ [(k, v)]))"

section \<open>Geometry\<close>

record Geometry =
  buffers :: "nat list"
  indexBuffer :: "nat option"
  attributes :: "(string \<times> Attribute) list"
  glVertexArrayObjects :: "(nat \<times> nat) list"

text \<open>The constructor: both arguments are optional.\<close>

definition new_Geometry :: "nat list option \<Rightarrow> (string \<times> Attribute) list option \<Rightarrow> Geometry" where
  "new_Geometry bs as =
     \<lparr>buffers = (case bs of None \<Rightarrow> [] | Some l \<Rightarrow> l), indexBuffer = None,
      attributes = (case as of None \<Rightarrow> [] | Some m \<Rightarrow> m), glVertexArrayObjects = []\<rparr>"

text \<open>\<^verbatim>\<open>xs.indexOf(x)\<close>; the result \<open>-1\<close> of the source is \<open>None\<close>.\<close>

fun indexOf :: "'a list \<Rightarrow> 'a \<Rightarrow> nat option" where
  "indexOf [] x = None"
| "indexOf (y # ys) x = (if y = x then Some 0 else map_option Suc (indexOf ys x))"

text \<open>\<^verbatim>\<open>xs[i]\<close> on a JavaScript array: \<^verbatim>\<open>undefined\<close> out of range.\<close>

definition js_nth :: "'a list \<Rightarrow> nat \<Rightarrow> 'a option" where
  "js_nth xs i = (if i < length xs then Some (xs ! i) else None)"

text \<open>\<^verbatim>\<open>id.split('|')\<close>.\<close>

fun split_on :: "char \<Rightarrow> string \<Rightarrow> string list" where
  "split_on c [] = [[]]"
| "split_on c (x # xs) =
     (if x = c then [] # split_on c xs
      else (case split_on c xs of [] \<Rightarrow> [[x]] | p # ps \<Rightarrow> (x # p) # ps))"

subsection \<open>getAttribute\<close>

text \<open>
  \<^verbatim>\<open>return this.buffers[this.attributes[id].buffer]\<close>: a TypeError when the map has no
  such name, otherwise the element of the buffer list (\<^verbatim>\<open>undefined\<close> out of range).
\<close>

definition getAttribute :: "Geometry \<Rightarrow> string \<Rightarrow> js_error + nat option" where
  "getAttribute g name =
     (case obj_get (attributes g) name of
        None \<Rightarrow> Inl TypeError
      | Some a \<Rightarrow> Inr (js_nth (buffers g) (buffer a)))"

definition getIndex :: "Geometry \<Rightarrow> nat option" where
  "getIndex g = indexBuffer g"

subsection \<open>addAttribute\<close>

text \<open>
  What a caller passes as \<^verbatim>\<open>buffer\<close>: nothing, a plain array of numbers, a typed
  array, or a Buffer object.
\<close>

datatype buffer_arg = Undefined | JSArray "jsnum list" | TypedArray nat | BufferObj nat

fun from_numbers :: "array_ctor \<Rightarrow> jsnum list \<Rightarrow> typed_array" where
  "from_numbers Float32 xs = Float32Array xs"
| "from_numbers Uint16 xs = Uint16Array (map to_uint16 xs)"

text \<open>
  The block \<^verbatim>\<open>if (!buffer.data) { if (array) buffer = new C(buffer); buffer = new Buffer(buffer); }\<close>
  of \<^verbatim>\<open>addAttribute\<close> (\<open>C\<close> is \<^verbatim>\<open>Float32Array\<close>) and \<^verbatim>\<open>addIndex\<close>
  (\<^verbatim>\<open>Uint16Array\<close>). Reading \<^verbatim>\<open>.data\<close> of \<^verbatim>\<open>undefined\<close> is a TypeError. A
  Buffer whose data was released would be wrapped in a second Buffer, which the
  constructor as the spec describes it does not cover.
\<close>

fun as_Buffer :: "array_ctor \<Rightarrow> store \<Rightarrow> buffer_arg \<Rightarrow> js_error + store \<times> nat" where
  "as_Buffer c s Undefined = Inl TypeError"
| "as_Buffer c s (JSArray xs) =
     (case alloc_array s (from_numbers c xs) of (s1, a) \<Rightarrow> Inr (new_Buffer s1 a))"
| "as_Buffer c s (TypedArray a) = Inr (new_Buffer s a)"
| "as_Buffer c s (BufferObj b) =
     (case data (bufs s ! b) of None \<Rightarrow> Inl OutsideModel | Some a \<Rightarrow> Inr (s, b))"

lemma split_on_nonempty: "split_on c s \<noteq> []"
  by (induction s) (auto split: list.splits)

lemma length_split_on: "length (split_on c s) = Suc (count_list s c)"
  by (induction s) (auto split: list.splits simp: split_on_nonempty)

lemma split_on_pieces: "p \<in> set (split_on c s) \<Longrightarrow> count_list p c = 0"
  by (induction s arbitrary: p) (auto split: list.splits if_splits)

lemma split_on_sum: "sum_list (map (\<lambda>n. count_list n c) (split_on c s)) = 0"
  by (simp add: split_on_pieces)

text \<open>
  A method mutates \<^verbatim>\<open>this\<close> and the store; it returns both, and an exception carries
  them as they are when it is thrown. The loop over the split names calls
  \<^verbatim>\<open>addAttribute\<close> again with the Buffer and without stride, start and instance.
\<close>

function addAttribute ::
    "store \<Rightarrow> Geometry \<Rightarrow> string \<Rightarrow> buffer_arg \<Rightarrow> nat \<Rightarrow> bool \<Rightarrow> nat \<Rightarrow> nat option \<Rightarrow> nat option
      \<Rightarrow> bool \<Rightarrow> js_error \<times> store \<times> Geometry + store \<times> Geometry"
  and addAttribute_ids ::
    "store \<Rightarrow> Geometry \<Rightarrow> string list \<Rightarrow> nat \<Rightarrow> nat \<Rightarrow> bool \<Rightarrow> nat
      \<Rightarrow> js_error \<times> store \<times> Geometry + store \<times> Geometry"
  where
  "addAttribute s g name arg sz normalised ty sd st inst =
     (if arg = Undefined
      then Inl (Error ''You must pass a buffer when creating an attribute'', s, g)
      else
        (case as_Buffer Float32 s arg of
           Inl e \<Rightarrow> Inl (e, s, g)
         | Inr (s1, b) \<Rightarrow>
             (let ids = split_on CHR ''|'' name in
              if 1 < length ids
              then addAttribute_ids s1 g ids b sz normalised ty
              else
                (let bs = (case indexOf (buffers g) b of
                             None \<Rightarrow> buffers g @ [b] | Some i \<Rightarrow> buffers g);
                     bufferIndex = (case indexOf (buffers g) b of
                             None \<Rightarrow> length bs - 1 | Some i \<Rightarrow> i)
                 in Inr (s1, g\<lparr>buffers := bs,
                      attributes := obj_set (attributes g) name
                        (new_Attribute bufferIndex sz normalised ty sd st inst)\<rparr>)))))"
| "addAttribute_ids s g [] b sz normalised ty = Inr (s, g)"
| "addAttribute_ids s g (n # ns) b sz normalised ty =
     (case addAttribute s g n (BufferObj b) sz normalised ty None None False of
        Inl e \<Rightarrow> Inl e
      | Inr (s1, g1) \<Rightarrow> addAttribute_ids s1 g1 ns b sz normalised ty)"
  by pat_completeness auto
termination
  apply (relation "measures
     [\<lambda>x. case x of
          Inl (s, g, name, r) \<Rightarrow> 2 * count_list name CHR ''|'' + 1
        | Inr (s, g, ids, r) \<Rightarrow> 2 * sum_list (map (\<lambda>n. count_list n CHR ''|'') ids) + 2,
      \<lambda>x. case x of Inl r \<Rightarrow> 0 | Inr (s, g, ids, r) \<Rightarrow> length ids]")
     apply (auto simp: split_on_sum length_split_on)
  done

declare addAttribute.simps [simp del]

subsection \<open>addIndex\<close>

text \<open>
  \<^verbatim>\<open>addIndex\<close> has no check for a missing argument: \<^verbatim>\<open>buffer.data\<close> is then a
  TypeError. A plain array becomes a \<^verbatim>\<open>Uint16Array\<close>.
\<close>

definition addIndex ::
    "store \<Rightarrow> Geometry \<Rightarrow> buffer_arg \<Rightarrow> js_error \<times> store \<times> Geometry + store \<times> Geometry" where
  "addIndex s g arg =
     (case as_Buffer Uint16 s arg of
        Inl e \<Rightarrow> Inl (e, s, g)
      | Inr (s1, b) \<Rightarrow>
          Inr (set_index s1 b,
               g\<lparr>indexBuffer := Some b,
                 buffers := (case indexOf (buffers g) b of
                               None \<Rightarrow> buffers g @ [b] | Some i \<Rightarrow> buffers g)\<rparr>))"

subsection \<open>interleaveTypedArrays\<close>

text \<open>
  The position \<^verbatim>\<open>((j / size | 0) * stride) + littleOffset + j % size\<close> at which element
  \<open>j\<close> of an array is written, when it is one.
\<close>

definition dest :: "jsnum \<Rightarrow> jsnum \<Rightarrow> jsnum \<Rightarrow> nat \<Rightarrow> nat option" where
  "dest sz strd littleOffset j =
     (let indexStart = js_add (js_mul (js_or0 (js_div (Num (of_nat j)) sz)) strd) littleOffset;
          index = js_rem (Num (of_nat j)) sz
      in as_position (js_add indexStart index))"

text \<open>The inner loop over the elements \<open>j, j + 1, \<dots>\<close> of one array.\<close>

fun place :: "jsnum list \<Rightarrow> jsnum list \<Rightarrow> nat \<Rightarrow> jsnum \<Rightarrow> jsnum \<Rightarrow> jsnum \<Rightarrow> jsnum list" where
  "place out [] j sz strd littleOffset = out"
| "place out (x # xs) j sz strd littleOffset =
     place (case dest sz strd littleOffset j of
              None \<Rightarrow> out
            | Some k \<Rightarrow> if k < length out then out[k := x] else out)
       xs (Suc j) sz strd littleOffset"

text \<open>
  The first loop: the stride and the size of the output. An entry of \<open>arrays\<close> is null
  when the data of its buffer was released; reading its length is a TypeError.
\<close>

fun measure_arrays ::
    "typed_array option list \<Rightarrow> jsnum list \<Rightarrow> jsnum \<Rightarrow> nat \<Rightarrow> js_error + jsnum \<times> nat" where
  "measure_arrays [] sizes strd outSize = Inr (strd, outSize)"
| "measure_arrays (None # arrays) sizes strd outSize = Inl TypeError"
| "measure_arrays (Some a # arrays) sizes strd outSize =
     measure_arrays arrays (tl sizes)
       (js_add strd (case sizes of [] \<Rightarrow> NaN | sz # r \<Rightarrow> sz)) (outSize + ta_length a)"

text \<open>
  The second loop writes every array through a view of its own type on the one
  \<^verbatim>\<open>ArrayBuffer\<close>, which is returned as a \<^verbatim>\<open>Float32Array\<close>. For a
  \<^verbatim>\<open>Float32Array\<close> the view is the result itself. For a \<^verbatim>\<open>Uint16Array\<close> the view
  has two elements per 32-bit word of the result: element \<open>k\<close> is one half of word
  \<open>k div 2\<close>. Which float a word is after one of its halves has been overwritten
  depends on the bit pattern of floats and on the byte order of the machine, which a
  model of arrays by their values does not hold: it is the parameter \<open>halfword\<close>, where
  \<open>halfword w h v\<close> is the word that was \<open>w\<close> after \<open>v\<close> is stored in its half \<open>h\<close>.
\<close>

fun place16 ::
    "(jsnum \<Rightarrow> nat \<Rightarrow> 16 word \<Rightarrow> jsnum) \<Rightarrow> jsnum list \<Rightarrow> 16 word list \<Rightarrow> nat \<Rightarrow> jsnum \<Rightarrow> jsnum
      \<Rightarrow> jsnum \<Rightarrow> jsnum list" where
  "place16 halfword out [] j sz strd littleOffset = out"
| "place16 halfword out (w # ws) j sz strd littleOffset =
     place16 halfword
       (case dest sz strd littleOffset j of
          None \<Rightarrow> out
        | Some k \<Rightarrow>
            if k < 2 * length out
            then out[k div 2 := halfword (out ! (k div 2)) (k mod 2) w]
            else out)
       ws (Suc j) sz strd littleOffset"

fun place_arrays ::
    "(jsnum \<Rightarrow> nat \<Rightarrow> 16 word \<Rightarrow> jsnum) \<Rightarrow> jsnum list \<Rightarrow> typed_array option list \<Rightarrow> jsnum list
      \<Rightarrow> jsnum \<Rightarrow> jsnum \<Rightarrow> js_error + jsnum list" where
  "place_arrays halfword out [] sizes strd littleOffset = Inr out"
| "place_arrays halfword out (None # arrays) sizes strd littleOffset = Inl TypeError"
| "place_arrays halfword out (Some (Float32Array xs) # arrays) sizes strd littleOffset =
     (let sz = (case sizes of [] \<Rightarrow> NaN | sz # r \<Rightarrow> sz)
      in place_arrays halfword (place out xs 0 sz strd littleOffset) arrays (tl sizes) strd
           (js_add littleOffset sz))"
| "place_arrays halfword out (Some (Uint16Array ws) # arrays) sizes strd littleOffset =
     (let sz = (case sizes of [] \<Rightarrow> NaN | sz # r \<Rightarrow> sz)
      in place_arrays halfword (place16 halfword out ws 0 sz strd littleOffset) arrays
           (tl sizes) strd (js_add littleOffset sz))"

definition interleaveTypedArrays ::
    "(jsnum \<Rightarrow> nat \<Rightarrow> 16 word \<Rightarrow> jsnum) \<Rightarrow> typed_array option list \<Rightarrow> jsnum list
      \<Rightarrow> js_error + typed_array" where
  "interleaveTypedArrays halfword arrays sizes =
     (case measure_arrays arrays sizes (Num 0) 0 of
        Inl e \<Rightarrow> Inl e
      | Inr (strd, outSize) \<Rightarrow>
          (case place_arrays halfword (replicate outSize (Num 0)) arrays sizes strd (Num 0) of
             Inl e \<Rightarrow> Inl e
           | Inr out \<Rightarrow> Inr (Float32Array out)))"

subsection \<open>interleave\<close>

text \<open>
  \<^verbatim>\<open>GLData.GL_SIZE_MAP\<close> is not among the sources: the table of the byte width of each
  scalar type is a parameter. The words one vertex of an attribute takes:
  \<^verbatim>\<open>(attribute.size * GLData.GL_SIZE_MAP[attribute.type]) / 4\<close>.
\<close>

definition footprint :: "(nat \<Rightarrow> jsnum) \<Rightarrow> Attribute \<Rightarrow> jsnum" where
  "footprint GL_SIZE_MAP a =
     js_div (js_mul (Num (of_nat (size' a))) (GL_SIZE_MAP (type a))) (Num 4)"

text \<open>
  The loop over the attributes, in enumeration order: it collects the data of each
  attribute's buffer and its footprint and sets \<^verbatim>\<open>attribute.buffer = 0\<close>. An attribute
  whose buffer index is out of range raises a TypeError, after the attributes before it
  have been rewritten.
\<close>

fun gather ::
    "(nat \<Rightarrow> jsnum) \<Rightarrow> store \<Rightarrow> nat list \<Rightarrow> (string \<times> Attribute) list
      \<Rightarrow> js_error \<times> (string \<times> Attribute) list
        + typed_array option list \<times> jsnum list \<times> (string \<times> Attribute) list" where
  "gather GL_SIZE_MAP s bs [] = Inr ([], [], [])"
| "gather GL_SIZE_MAP s bs ((n, a) # m) =
     (case js_nth bs (buffer a) of
        None \<Rightarrow> Inl (TypeError, (n, a) # m)
      | Some b \<Rightarrow>
          (case gather GL_SIZE_MAP s bs m of
             Inl (e, m') \<Rightarrow> Inl (e, (n, a\<lparr>buffer := 0\<rparr>) # m')
           | Inr (arrays, sizes, m') \<Rightarrow>
               Inr (data_of s b # arrays, footprint GL_SIZE_MAP a # sizes,
                    (n, a\<lparr>buffer := 0\<rparr>) # m')))"

text \<open>Every buffer but the index buffer is destroyed.\<close>

fun destroy_others :: "store \<Rightarrow> nat list \<Rightarrow> nat option \<Rightarrow> store" where
  "destroy_others s [] ib = s"
| "destroy_others s (b # bs) ib =
     destroy_others (if Some b \<noteq> ib then Buffer_destroy s b else s) bs ib"

definition interleave ::
    "(jsnum \<Rightarrow> nat \<Rightarrow> 16 word \<Rightarrow> jsnum) \<Rightarrow> (nat \<Rightarrow> jsnum) \<Rightarrow> store \<Rightarrow> Geometry
      \<Rightarrow> js_error \<times> store \<times> Geometry + store \<times> Geometry" where
  "interleave halfword GL_SIZE_MAP s g =
     (if length (buffers g) = 1 \<or> (length (buffers g) = 2 \<and> indexBuffer g \<noteq> None)
      then Inr (s, g)
      else
        (case new_Buffer_default s of (s1, interleavedBuffer) \<Rightarrow>
           (case gather GL_SIZE_MAP s1 (buffers g) (attributes g) of
              Inl (e, m') \<Rightarrow> Inl (e, s1, g\<lparr>attributes := m'\<rparr>)
            | Inr (arrays, sizes, m') \<Rightarrow>
                (case interleaveTypedArrays halfword arrays sizes of
                   Inl e \<Rightarrow> Inl (e, s1, g\<lparr>attributes := m'\<rparr>)
                 | Inr out \<Rightarrow>
                     (case alloc_array s1 out of (s2, a) \<Rightarrow>
                        Inr (destroy_others (set_data s2 interleavedBuffer a) (buffers g)
                               (indexBuffer g),
                             g\<lparr>attributes := m',
                               buffers := interleavedBuffer #
                                 (case indexBuffer g of None \<Rightarrow> [] | Some ib \<Rightarrow> [ib])\<rparr>))))))"

subsection \<open>destroy\<close>

text \<open>
  \<^verbatim>\<open>destroy\<close> sets fields to null, which no other method does: the object it leaves
  behind has its own type. \<^verbatim>\<open>glVertexArrayObjects\<close> is a plain object, its
  \<^verbatim>\<open>length\<close> is undefined and the first loop never runs.
\<close>

record torn_Geometry =
  torn_buffers :: "nat list option"
  torn_indexBuffer :: "nat option"
  torn_attributes :: "(string \<times> Attribute) list option"
  torn_glVertexArrayObjects :: "(nat \<times> nat) list option"

definition destroy ::
    "store \<Rightarrow> Geometry \<Rightarrow> js_error \<times> store \<times> torn_Geometry + store \<times> torn_Geometry" where
  "destroy s g =
     (let s1 = fold (\<lambda>b s'. Buffer_destroy s' b) (buffers g) s
      in case indexBuffer g of
           None \<Rightarrow>
             Inl (TypeError, s1,
                  \<lparr>torn_buffers = None, torn_indexBuffer = None,
                   torn_attributes = Some (attributes g), torn_glVertexArrayObjects = None\<rparr>)
         | Some ib \<Rightarrow>
             Inr (Buffer_destroy s1 ib,
                  \<lparr>torn_buffers = None, torn_indexBuffer = Some ib,
                   torn_attributes = None, torn_glVertexArrayObjects = None\<rparr>))"

subsection \<open>clone\<close>

text \<open>
  \<^verbatim>\<open>new Buffer(this.buffers[i].data.slice())\<close> for every buffer: \<^verbatim>\<open>slice\<close> makes a new
  typed array with the same elements. A buffer whose data was released raises a
  TypeError. \<^verbatim>\<open>this\<close> is not mutated, an exception carries the store only.
\<close>

fun clone_buffers :: "store \<Rightarrow> nat list \<Rightarrow> js_error \<times> store + store \<times> nat list" where
  "clone_buffers s [] = Inr (s, [])"
| "clone_buffers s (b # bs) =
     (case data_of s b of
        None \<Rightarrow> Inl (TypeError, s)
      | Some arr \<Rightarrow>
          (case alloc_array s arr of (s1, a) \<Rightarrow>
             (case new_Buffer s1 a of (s2, nb) \<Rightarrow>
                (case clone_buffers s2 bs of
                   Inl e \<Rightarrow> Inl e
                 | Inr (s3, nbs) \<Rightarrow> Inr (s3, nb # nbs)))))"

definition clone_attributes :: "(string \<times> Attribute) list \<Rightarrow> (string \<times> Attribute) list" where
  "clone_attributes m =
     foldl (\<lambda>m' (n, attrib). obj_set m' n
              (new_Attribute (buffer attrib) (size' attrib) (normalized attrib) (type attrib)
                 (stride attrib) (start attrib) (instance' attrib))) [] m"

definition clone :: "store \<Rightarrow> Geometry \<Rightarrow> js_error \<times> store + store \<times> Geometry" where
  "clone s g =
     (case clone_buffers s (buffers g) of
        Inl e \<Rightarrow> Inl e
      | Inr (s1, nbs) \<Rightarrow>
          (let geometry = (new_Geometry None None)
                 \<lparr>buffers := nbs, attributes := clone_attributes (attributes g)\<rparr>
           in case indexBuffer g of
                None \<Rightarrow> Inr (s1, geometry)
              | Some ib \<Rightarrow>
                  (case indexOf (buffers g) ib of
                     None \<Rightarrow> Inl (TypeError, s1)
                   | Some i \<Rightarrow>
                       (case js_nth nbs i of
                          None \<Rightarrow> Inl (TypeError, s1)
                        | Some nb \<Rightarrow>
                            Inr (set_index s1 nb, geometry\<lparr>indexBuffer := Some nb\<rparr>)))))"

subsection \<open>merge\<close>

text \<open>
  Pass one: \<^verbatim>\<open>sizes[j] = sizes[j] || 0; sizes[j] += geometry.buffers[j].data.length\<close> for
  every buffer slot \<open>j\<close> of every geometry; \<^verbatim>\<open>offsets[j] = 0\<close> for the same slots.
\<close>

fun add_lengths :: "store \<Rightarrow> nat list \<Rightarrow> nat list \<Rightarrow> js_error + nat list" where
  "add_lengths s [] sizes = Inr sizes"
| "add_lengths s (b # bs) sizes =
     (case data_of s b of
        None \<Rightarrow> Inl TypeError
      | Some arr \<Rightarrow>
          (case add_lengths s bs (tl sizes) of
             Inl e \<Rightarrow> Inl e
           | Inr r \<Rightarrow> Inr (((case sizes of [] \<Rightarrow> 0 | n # ns \<Rightarrow> n) + ta_length arr) # r)))"

fun pass_one :: "store \<Rightarrow> Geometry list \<Rightarrow> nat list \<Rightarrow> js_error + nat list" where
  "pass_one s [] sizes = Inr sizes"
| "pass_one s (geometry # geometries) sizes =
     (case add_lengths s (buffers geometry) sizes of
        Inl e \<Rightarrow> Inl e
      | Inr sizes' \<Rightarrow> pass_one s geometries sizes')"

text \<open>
  One output array and one output Buffer per slot of the last geometry:
  \<^verbatim>\<open>arrays[i] = new geometry.buffers[i].data.constructor(sizes[i])\<close>.
\<close>

fun build_arrays ::
    "store \<Rightarrow> nat list \<Rightarrow> nat list \<Rightarrow> js_error \<times> store + store \<times> nat list \<times> nat list" where
  "build_arrays s [] sizes = Inr (s, [], [])"
| "build_arrays s (b # bs) sizes =
     (case data_of s b of
        None \<Rightarrow> Inl (TypeError, s)
      | Some arr \<Rightarrow>
          (case alloc_array s (ta_new (ctor_of arr) (case sizes of [] \<Rightarrow> 0 | n # ns \<Rightarrow> n)) of
             (s1, a) \<Rightarrow>
               (case new_Buffer s1 a of (s2, nb) \<Rightarrow>
                  (case build_arrays s2 bs (tl sizes) of
                     Inl e \<Rightarrow> Inl e
                   | Inr (s3, arrays, nbs) \<Rightarrow> Inr (s3, a # arrays, nb # nbs)))))"

text \<open>
  Pass two, for one geometry: \<^verbatim>\<open>arrays[j].set(geometry.buffers[j].data, offsets[j])\<close>
  and \<^verbatim>\<open>offsets[j] += geometry.buffers[j].data.length\<close>. A geometry with more buffers
  than the last one finds \<^verbatim>\<open>arrays[j]\<close> undefined: a TypeError.
\<close>

fun copy_slots ::
    "store \<Rightarrow> nat list \<Rightarrow> nat list \<Rightarrow> nat list \<Rightarrow> js_error \<times> store + store \<times> nat list" where
  "copy_slots s arrays [] offsets = Inr (s, offsets)"
| "copy_slots s [] (b # bs) offsets = Inl (TypeError, s)"
| "copy_slots s (a # arrays) (b # bs) offsets =
     (case data_of s b of
        None \<Rightarrow> Inl (TypeError, s)
      | Some src \<Rightarrow>
          (let off = (case offsets of [] \<Rightarrow> 0 | n # ns \<Rightarrow> n) in
           case ta_set (arrs s ! a) src off of
             Inl e \<Rightarrow> Inl (e, s)
           | Inr t \<Rightarrow>
               (case copy_slots (s\<lparr>arrs := (arrs s)[a := t]\<rparr>) arrays bs (tl offsets) of
                  Inl e \<Rightarrow> Inl e
                | Inr (s1, r) \<Rightarrow> Inr (s1, (off + ta_length src) # r))))"

fun pass_two ::
    "store \<Rightarrow> nat list \<Rightarrow> Geometry list \<Rightarrow> nat list \<Rightarrow> js_error \<times> store + store" where
  "pass_two s arrays [] offsets = Inr s"
| "pass_two s arrays (geometry # geometries) offsets =
     (case copy_slots s arrays (buffers geometry) offsets of
        Inl e \<Rightarrow> Inl e
      | Inr (s1, offsets') \<Rightarrow> pass_two s1 arrays geometries offsets')"

text \<open>
  \<^verbatim>\<open>bufferIndexToCount\<close>: the first slot whose buffer is not the index buffer, 0 when
  there is none.
\<close>

fun first_other :: "nat list \<Rightarrow> nat \<Rightarrow> nat option" where
  "first_other [] ib = None"
| "first_other (b # bs) ib = (if b \<noteq> ib then Some 0 else map_option Suc (first_other bs ib))"

definition bufferIndexToCount :: "nat list \<Rightarrow> nat \<Rightarrow> nat" where
  "bufferIndexToCount bs ib = (case first_other bs ib of None \<Rightarrow> 0 | Some i \<Rightarrow> i)"

text \<open>The stride of that slot: the footprints of the attributes that read it, summed.\<close>

fun slot_stride :: "(nat \<Rightarrow> jsnum) \<Rightarrow> (string \<times> Attribute) list \<Rightarrow> nat \<Rightarrow> jsnum \<Rightarrow> jsnum" where
  "slot_stride GL_SIZE_MAP [] slot acc = acc"
| "slot_stride GL_SIZE_MAP ((n, attribute) # m) slot acc =
     slot_stride GL_SIZE_MAP m slot
       (if buffer attribute = slot then js_add acc (footprint GL_SIZE_MAP attribute) else acc)"

text \<open>
  \<^verbatim>\<open>data[j + offset2] += offset\<close> for \<open>n\<close> consecutive positions from \<open>k\<close>. Out of
  range the read is undefined and the write is ignored.
\<close>

fun add_offset :: "typed_array \<Rightarrow> nat \<Rightarrow> nat \<Rightarrow> jsnum \<Rightarrow> typed_array" where
  "add_offset t k 0 offset = t"
| "add_offset t k (Suc n) offset =
     add_offset (case ta_get t k of None \<Rightarrow> t | Some v \<Rightarrow> ta_put t k (js_add v offset))
       (Suc k) n offset"

text \<open>
  The loop that offsets the indices. \<open>out\<close> is the data of the output index buffer,
  \<open>count\<close> is \<^verbatim>\<open>geometry.buffers[bufferIndexToCount].data.length\<close> of the last geometry,
  read again in every round. A geometry without an index buffer raises a TypeError.
\<close>

fun offset_indices ::
    "store \<Rightarrow> nat \<Rightarrow> Geometry list \<Rightarrow> nat \<Rightarrow> jsnum \<Rightarrow> jsnum \<Rightarrow> nat \<Rightarrow> js_error \<times> store + store" where
  "offset_indices s out [] count strd offset offset2 = Inr s"
| "offset_indices s out (gi # geometries) count strd offset offset2 =
     (case indexBuffer gi of
        None \<Rightarrow> Inl (TypeError, s)
      | Some ib \<Rightarrow>
          (case data_of s ib of
             None \<Rightarrow> Inl (TypeError, s)
           | Some indexBufferData \<Rightarrow>
               offset_indices
                 (s\<lparr>arrs := (arrs s)[out := add_offset (arrs s ! out) offset2
                                            (ta_length indexBufferData) offset]\<rparr>)
                 out geometries count strd
                 (js_add offset (js_div (Num (of_nat count)) strd))
                 (offset2 + ta_length indexBufferData)))"

text \<open>
  The static method. \<open>geometry\<close> is the variable of the source that the loops leave at
  the last element; with no geometries it is undefined and reading its buffers is a
  TypeError. The inputs are not mutated; an exception carries the store.
\<close>

definition merge ::
    "(nat \<Rightarrow> jsnum) \<Rightarrow> store \<Rightarrow> Geometry list \<Rightarrow> js_error \<times> store + store \<times> Geometry" where
  "merge GL_SIZE_MAP s geometries =
     (case pass_one s geometries [] of
        Inl e \<Rightarrow> Inl (e, s)
      | Inr sizes \<Rightarrow>
          (if geometries = [] then Inl (TypeError, s)
           else
             (let geometry = last geometries in
              case build_arrays s (buffers geometry) sizes of
                Inl e \<Rightarrow> Inl e
              | Inr (s1, arrays, nbs) \<Rightarrow>
                  (case pass_two s1 arrays geometries (map (\<lambda>n. 0) sizes) of
                     Inl e \<Rightarrow> Inl e
                   | Inr s2 \<Rightarrow>
                       (let geometryOut = (new_Geometry None None)
                              \<lparr>buffers := nbs, attributes := attributes geometry\<rparr>
                        in case indexBuffer geometry of
                             None \<Rightarrow> Inr (s2, geometryOut)
                           | Some ib \<Rightarrow>
                               (case indexOf (buffers geometry) ib of
                                  None \<Rightarrow> Inl (TypeError, s2)
                                | Some i \<Rightarrow>
                                    (case js_nth nbs i of
                                       None \<Rightarrow> Inl (TypeError, s2)
                                     | Some ob \<Rightarrow>
                                         (let s3 = set_index s2 ob;
                                              slot = bufferIndexToCount (buffers geometry) ib;
                                              strd = slot_stride GL_SIZE_MAP (attributes geometry)
                                                       slot (Num 0)
                                          in case data (bufs s3 ! ob) of
                                               None \<Rightarrow> Inl (TypeError, s3)
                                             | Some out \<Rightarrow>
                                                 (case js_nth (buffers geometry) slot of
                                                    None \<Rightarrow> Inl (TypeError, s3)
                                                  | Some cb \<Rightarrow>
                                                      (case data_of s3 cb of
                                                         None \<Rightarrow> Inl (TypeError, s3)
                                                       | Some counted \<Rightarrow>
                                                           (case offset_indices s3 out geometries
                                                                   (ta_length counted) strd (Num 0) 0 of
                                                              Inl e \<Rightarrow> Inl e
                                                            | Inr s4 \<Rightarrow>
                                                                Inr (s4, geometryOut
                                                                  \<lparr>indexBuffer := Some ob\<rparr>))))))))))))"

section \<open>Facts about the containers\<close>

lemma map_of_obj_insert:
  "map_of m k = None \<Longrightarrow> map_of (obj_insert m k n v) = (map_of m)(k \<mapsto> v)"
  by (induction m k n v rule: obj_insert.induct) (auto split: option.splits if_splits)

lemma map_of_replace_other:
  "k' \<noteq> k \<Longrightarrow> map_of (map (\<lambda>(a, b). if a = k then (a, v) else (a, b)) m) k' = map_of m k'"
  by (induction m) auto

lemma map_of_replace_same:
  "map_of m k = Some old \<Longrightarrow> map_of (map (\<lambda>(a, b). if a = k then (a, v) else (a, b)) m) k = Some v"
  by (induction m) (auto split: if_splits)

lemma obj_get_obj_set: "obj_get (obj_set m k v) = (obj_get m)(k \<mapsto> v)"
proof (cases "map_of m k")
  case None
  then have "map_of (m @ [(k, v)]) = (map_of m)(k \<mapsto> v)"
    by (auto simp: map_add_def fun_eq_iff split: option.splits)
  with None show ?thesis
    by (auto simp: obj_get_def obj_set_def map_of_obj_insert split: option.splits)
next
  case (Some old)
  then show ?thesis
    by (auto simp: obj_get_def obj_set_def fun_eq_iff map_of_replace_other map_of_replace_same)
qed

lemma indexOf_None: "indexOf xs x = None \<longleftrightarrow> x \<notin> set xs"
  by (induction xs) auto

lemma indexOf_Some: "indexOf xs x = Some i \<Longrightarrow> i < length xs \<and> xs ! i = x"
  by (induction xs arbitrary: i) (auto split: if_splits)

lemma indexOf_append_new: "x \<notin> set xs \<Longrightarrow> indexOf (xs @ [x]) x = Some (length xs)"
  by (induction xs) auto

lemma indexOf_Some_mem: "indexOf xs x = Some i \<Longrightarrow> x \<in> set xs"
  using indexOf_None [of xs x] by auto

lemma split_on_single: "c \<notin> set n \<Longrightarrow> split_on c n = [n]"
  by (induction n) auto

lemma split_on_no_sep: "p \<in> set (split_on c s) \<Longrightarrow> c \<notin> set p"
  by (induction s arbitrary: p) (auto split: list.splits if_splits)

lemma split_on_many: "c \<in> set s \<Longrightarrow> 1 < length (split_on c s)"
  by (induction s) (auto simp: split_on_nonempty split: list.splits)

section \<open>Registering one buffer under several names\<close>

lemma as_Buffer_live:
  "as_Buffer c s arg = Inr (s1, b) \<Longrightarrow> \<exists>a. data (bufs s1 ! b) = Some a"
  by (cases arg) (auto simp: alloc_array_def new_Buffer_def split: option.splits)

text \<open>
  The buffer list after a Buffer has been looked up and, if absent, appended, and the
  position at which the attribute then finds it.
\<close>

definition slot_of :: "nat list \<Rightarrow> nat \<Rightarrow> nat" where
  "slot_of bs b = (case indexOf bs b of None \<Rightarrow> length bs | Some i \<Rightarrow> i)"

definition with_buffer :: "nat list \<Rightarrow> nat \<Rightarrow> nat list" where
  "with_buffer bs b = (if b \<in> set bs then bs else bs @ [b])"

lemma slot_of_with_buffer: "slot_of (with_buffer bs b) b = slot_of bs b"
  by (auto simp: slot_of_def with_buffer_def indexOf_append_new indexOf_None
      dest: indexOf_Some_mem split: option.splits)

lemma with_buffer_idem: "with_buffer (with_buffer bs b) b = with_buffer bs b"
  by (auto simp: with_buffer_def)

lemma slot_of_in_range:
  "slot_of bs b < length (with_buffer bs b) \<and> with_buffer bs b ! slot_of bs b = b"
  by (auto simp: slot_of_def with_buffer_def indexOf_None nth_append
      dest: indexOf_Some split: option.splits)

lemma addAttribute_single:
  assumes "CHR ''|'' \<notin> set n" and "data (bufs s ! b) = Some a"
  shows "addAttribute s g n (BufferObj b) sz nrm ty sd st inst =
           Inr (s, g\<lparr>buffers := with_buffer (buffers g) b,
                  attributes := obj_set (attributes g) n
                     (new_Attribute (slot_of (buffers g) b) sz nrm ty sd st inst)\<rparr>)"
proof (cases "indexOf (buffers g) b")
  case None
  then have "b \<notin> set (buffers g)"
    by (simp add: indexOf_None)
  with assms None show ?thesis
    by (simp add: addAttribute.simps(1) split_on_single slot_of_def with_buffer_def Let_def)
next
  case (Some i)
  with assms indexOf_Some_mem [OF Some] show ?thesis
    by (simp add: addAttribute.simps(1) split_on_single slot_of_def with_buffer_def Let_def)
qed

lemma addAttribute_ids_registers:
  assumes "\<forall>n \<in> set ids. CHR ''|'' \<notin> set n" and "data (bufs s ! b) = Some a"
  shows "\<exists>g'. addAttribute_ids s g ids b sz nrm ty = Inr (s, g') \<and>
           buffers g' = (if ids = [] then buffers g else with_buffer (buffers g) b) \<and>
           indexBuffer g' = indexBuffer g \<and>
           (\<forall>k. obj_get (attributes g') k =
              (if k \<in> set ids
               then Some (new_Attribute (slot_of (buffers g) b) sz nrm ty None None False)
               else obj_get (attributes g) k))"
  using assms
proof (induction ids arbitrary: g)
  case Nil
  then show ?case by (simp add: addAttribute.simps)
next
  case (Cons n ns)
  let ?g1 = "g\<lparr>buffers := with_buffer (buffers g) b,
                attributes := obj_set (attributes g) n
                   (new_Attribute (slot_of (buffers g) b) sz nrm ty None None False)\<rparr>"
  have one: "addAttribute s g n (BufferObj b) sz nrm ty None None False = Inr (s, ?g1)"
    using Cons.prems by (intro addAttribute_single) auto
  from Cons.IH [of ?g1] Cons.prems obtain g' where
    g': "addAttribute_ids s ?g1 ns b sz nrm ty = Inr (s, g')"
        "buffers g' = (if ns = [] then buffers ?g1 else with_buffer (buffers ?g1) b)"
        "indexBuffer g' = indexBuffer ?g1"
        "\<forall>k. obj_get (attributes g') k =
              (if k \<in> set ns
               then Some (new_Attribute (slot_of (buffers ?g1) b) sz nrm ty None None False)
               else obj_get (attributes ?g1) k)"
    by auto
  have "addAttribute_ids s g (n # ns) b sz nrm ty = Inr (s, g')"
    using one g'(1) by (simp add: addAttribute.simps)
  moreover have "buffers g' = with_buffer (buffers g) b"
    using g'(2) by (simp add: with_buffer_idem)
  moreover have "indexBuffer g' = indexBuffer g"
    using g'(3) by simp
  moreover have "obj_get (attributes g') k =
              (if k \<in> set (n # ns)
               then Some (new_Attribute (slot_of (buffers g) b) sz nrm ty None None False)
               else obj_get (attributes g) k)" for k
    using g'(4) by (simp add: slot_of_with_buffer obj_get_obj_set)
  ultimately show ?case by auto
qed

section \<open>The index buffer is one of the buffers\<close>

text \<open>
  The invariant, and the geometry a call leaves behind, whether it returned or threw.
\<close>

definition index_in_buffers :: "Geometry \<Rightarrow> bool" where
  "index_in_buffers g = (case indexBuffer g of None \<Rightarrow> True | Some ib \<Rightarrow> ib \<in> set (buffers g))"

definition outcome_geometry :: "js_error \<times> store \<times> Geometry + store \<times> Geometry \<Rightarrow> Geometry" where
  "outcome_geometry r = (case r of Inl (e, s, g) \<Rightarrow> g | Inr (s, g) \<Rightarrow> g)"

lemma outcome_geometry_simps [simp]:
  "outcome_geometry (Inl (e, s, g)) = g" "outcome_geometry (Inr (s, g)) = g"
  by (simp_all add: outcome_geometry_def)

lemma addAttribute_frame:
  "indexBuffer (outcome_geometry (addAttribute s g name arg sz nrm ty sd st inst)) = indexBuffer g \<and>
   set (buffers g) \<subseteq> set (buffers (outcome_geometry (addAttribute s g name arg sz nrm ty sd st inst)))"
  and addAttribute_ids_frame:
  "indexBuffer (outcome_geometry (addAttribute_ids s g ids b sz nrm ty)) = indexBuffer g \<and>
   set (buffers g) \<subseteq> set (buffers (outcome_geometry (addAttribute_ids s g ids b sz nrm ty)))"
proof (induction s g name arg sz nrm ty sd st inst and s g ids b sz nrm ty
    rule: addAttribute_addAttribute_ids.induct)
  case (1 s g name arg sz normalised ty sd st inst)
  show ?case
  proof (cases "arg = Undefined")
    case True
    then show ?thesis by (simp add: addAttribute.simps(1))
  next
    case False
    show ?thesis
    proof (cases "as_Buffer Float32 s arg")
      case (Inl e)
      with False show ?thesis by (simp add: addAttribute.simps(1))
    next
      case (Inr p)
      obtain s1 b where p: "p = (s1, b)" by (cases p)
      show ?thesis
      proof (cases "1 < length (split_on CHR ''|'' name)")
        case True
        from "1.IH" [OF False Inr p [symmetric] refl True] False Inr p True
        show ?thesis by (simp add: addAttribute.simps(1))
      next
        case single: False
        with False Inr p show ?thesis
          by (auto simp: addAttribute.simps(1) Let_def split: option.splits)
      qed
    qed
  qed
next
  case (2 s g b sz normalised ty)
  show ?case by simp
next
  case (3 s g n ns b sz normalised ty)
  show ?case
  proof (cases "addAttribute s g n (BufferObj b) sz normalised ty None None False")
    case (Inl e)
    with "3.IH"(1) show ?thesis
      by simp
  next
    case (Inr p)
    obtain s1 g1 where p: "p = (s1, g1)" by (cases p)
    from "3.IH"(1) Inr p have one: "indexBuffer g1 = indexBuffer g" "set (buffers g) \<subseteq> set (buffers g1)"
      by simp_all
    from "3.IH"(2) [OF Inr p [symmetric]] one Inr p show ?thesis
      by auto
  qed
qed

lemma addAttribute_keeps_invariant:
  assumes "index_in_buffers g"
  shows "index_in_buffers (outcome_geometry (addAttribute s g name arg sz nrm ty sd st inst))"
  using assms addAttribute_frame [of s g name arg sz nrm ty sd st inst]
  by (auto simp: index_in_buffers_def split: option.splits)

lemma addIndex_invariant:
  assumes "index_in_buffers g"
  shows "index_in_buffers (outcome_geometry (addIndex s g arg))"
  using assms
  by (auto simp: addIndex_def index_in_buffers_def indexOf_None
      dest: indexOf_Some_mem split: sum.splits option.splits)

lemma addIndex_establishes:
  assumes "addIndex s g arg = Inr (s', g')"
  shows "index_in_buffers g'"
  using assms
  by (auto simp: addIndex_def index_in_buffers_def indexOf_None
      dest: indexOf_Some_mem split: sum.splits option.splits)

lemma interleave_invariant:
  assumes "index_in_buffers g"
  shows "index_in_buffers (outcome_geometry (interleave H M s g))"
  using assms
  by (auto simp: interleave_def index_in_buffers_def split: sum.splits option.splits prod.splits)

lemma clone_establishes:
  assumes "clone s g = Inr (s', g')"
  shows "index_in_buffers g'"
  using assms
  by (auto simp: clone_def index_in_buffers_def new_Geometry_def js_nth_def Let_def
      split: sum.splits option.splits prod.splits if_splits)

lemma merge_establishes:
  assumes "merge M s gs = Inr (s', g')"
  shows "index_in_buffers g'"
  using assms
  by (auto simp: merge_def index_in_buffers_def new_Geometry_def js_nth_def Let_def
      split: sum.splits option.splits prod.splits if_splits)

text \<open>
  The geometries a program can build with the constructor and the operations (the fields
  are public, and assigning to them is not one of the operations).
\<close>

inductive reachable ::
    "(jsnum \<Rightarrow> nat \<Rightarrow> 16 word \<Rightarrow> jsnum) \<Rightarrow> (nat \<Rightarrow> jsnum) \<Rightarrow> Geometry \<Rightarrow> bool" for H M where
  constructed: "reachable H M (new_Geometry bs as)"
| addAttribute_done:
    "reachable H M g \<Longrightarrow> reachable H M (outcome_geometry (addAttribute s g name arg sz nrm ty sd st inst))"
| addIndex_done: "reachable H M g \<Longrightarrow> reachable H M (outcome_geometry (addIndex s g arg))"
| interleave_done: "reachable H M g \<Longrightarrow> reachable H M (outcome_geometry (interleave H M s g))"
| cloned: "reachable H M g \<Longrightarrow> clone s g = Inr (s', g') \<Longrightarrow> reachable H M g'"
| merged: "merge M s gs = Inr (s', g') \<Longrightarrow> reachable H M g'"

lemma reachable_invariant: "reachable H M g \<Longrightarrow> index_in_buffers g"
proof (induction rule: reachable.induct)
  case (constructed bs as)
  show ?case by (simp add: index_in_buffers_def new_Geometry_def)
next
  case (addAttribute_done g s name arg sz nrm ty sd st inst)
  then show ?case by (simp add: addAttribute_keeps_invariant)
next
  case (addIndex_done g s arg)
  then show ?case by (simp add: addIndex_invariant)
next
  case (interleave_done g s)
  then show ?case by (simp add: interleave_invariant)
next
  case (cloned g s s' g')
  then show ?case by (simp add: clone_establishes)
next
  case (merged s gs s' g')
  then show ?case by (simp add: merge_establishes)
qed

section \<open>Cloning\<close>

text \<open>
  References are valid when they point into the store: every buffer of the list exists,
  and so does the array of its data.
\<close>

definition valid_refs :: "store \<Rightarrow> nat list \<Rightarrow> bool" where
  "valid_refs s bs =
     list_all (\<lambda>b. b < length (bufs s) \<and>
                  (case data (bufs s ! b) of None \<Rightarrow> True | Some a \<Rightarrow> a < length (arrs s))) bs"



lemma data_of_grow:
  assumes "b < length (bufs s)"
      and "case data (bufs s ! b) of None \<Rightarrow> True | Some a \<Rightarrow> a < length (arrs s)"
  shows "data_of (s\<lparr>arrs := arrs s @ ys, bufs := bufs s @ xs\<rparr>) b = data_of s b"
  using assms by (auto simp: data_of_def nth_append split: option.splits)

lemma valid_refs_data_of_grow:
  assumes "valid_refs s bs" and "b \<in> set bs"
  shows "data_of (s\<lparr>arrs := arrs s @ ys, bufs := bufs s @ xs\<rparr>) b = data_of s b"
  using assms by (intro data_of_grow) (auto simp: valid_refs_def list_all_iff)


lemma set_index_arrs [simp]: "arrs (set_index s b) = arrs s"
  by (simp add: set_index_def)

lemma set_index_length [simp]: "length (bufs (set_index s b)) = length (bufs s)"
  by (simp add: set_index_def)

lemma set_index_data [simp]: "data (bufs (set_index s b) ! x) = data (bufs s ! x)"
proof (cases "x = b \<and> b < length (bufs s)")
  case True
  then show ?thesis by (simp add: set_index_def)
next
  case False
  then have "(bufs s)[b := (bufs s ! b)\<lparr>index := True\<rparr>] ! x = bufs s ! x"
    by (cases "x = b") (simp_all add: list_update_beyond)
  then show ?thesis by (simp add: set_index_def)
qed


section \<open>When interleave returns\<close>

text \<open>
  The attributes of a geometry are readable when the buffer index of each is within the
  buffer list and the data of that buffer has not been released. These are the two
  ways in which \<^verbatim>\<open>interleave\<close> throws.
\<close>

definition readable :: "store \<Rightarrow> Geometry \<Rightarrow> bool" where
  "readable s g =
     list_all (\<lambda>(n, a). case js_nth (buffers g) (buffer a) of
                            None \<Rightarrow> False | Some b \<Rightarrow> data_of s b \<noteq> None) (attributes g)"

lemma measure_arrays_returns:
  "(\<exists>r. measure_arrays arrays sizes st n = Inr r) \<longleftrightarrow> list_all (\<lambda>x. x \<noteq> None) arrays"
proof (induction arrays arbitrary: sizes st n)
  case Nil
  show ?case by simp
next
  case (Cons x arrays)
  show ?case
  proof (cases x)
    case None
    then show ?thesis by simp
  next
    case (Some a)
    with Cons.IH show ?thesis by simp
  qed
qed

lemma place_arrays_returns:
  "(\<exists>r. place_arrays H out arrays sizes st lo = Inr r) \<longleftrightarrow> list_all (\<lambda>x. x \<noteq> None) arrays"
proof (induction arrays arbitrary: out sizes lo)
  case Nil
  show ?case by simp
next
  case (Cons x arrays)
  show ?case
  proof (cases x)
    case None
    then show ?thesis by simp
  next
    case (Some a)
    with Cons.IH show ?thesis
      by (cases a) (simp_all add: Let_def)
  qed
qed

lemma interleaveTypedArrays_returns:
  "(\<exists>r. interleaveTypedArrays H arrays sizes = Inr r) \<longleftrightarrow> list_all (\<lambda>x. x \<noteq> None) arrays"
proof (cases "list_all (\<lambda>x. x \<noteq> None) arrays")
  case True
  from True obtain st n where m: "measure_arrays arrays sizes (Num 0) 0 = Inr (st, n)"
    using measure_arrays_returns [of arrays sizes "Num 0" 0] by auto
  from True obtain out where
    "place_arrays H (replicate n (Num 0)) arrays sizes st (Num 0) = Inr out"
    using place_arrays_returns [of H "replicate n (Num 0)" arrays sizes st "Num 0"] by auto
  with m True show ?thesis
    by (simp add: interleaveTypedArrays_def)
next
  case False
  then have "\<forall>r. measure_arrays arrays sizes (Num 0) 0 \<noteq> Inr r"
    using measure_arrays_returns [of arrays sizes "Num 0" 0] by auto
  then obtain e where "measure_arrays arrays sizes (Num 0) 0 = Inl e"
    by (cases "measure_arrays arrays sizes (Num 0) 0") auto
  with False show ?thesis
    by (simp add: interleaveTypedArrays_def)
qed

lemma gather_returns:
  "(\<exists>arrays sizes m'. gather M s bs m = Inr (arrays, sizes, m') \<and>
       list_all (\<lambda>x. x \<noteq> None) arrays) \<longleftrightarrow>
   list_all (\<lambda>(n, a). case js_nth bs (buffer a) of
                          None \<Rightarrow> False | Some b \<Rightarrow> data_of s b \<noteq> None) m"
proof (induction m)
  case Nil
  show ?case by simp
next
  case (Cons x m)
  obtain n a where x: "x = (n, a)" by (cases x)
  show ?case
  proof (cases "js_nth bs (buffer a)")
    case None
    with x show ?thesis by simp
  next
    case (Some b)
    show ?thesis
    proof (cases "gather M s bs m")
      case (Inl e)
      with Cons.IH x Some show ?thesis
        by (auto split: prod.splits)
    next
      case (Inr r)
      obtain arrays sizes m' where r: "r = (arrays, sizes, m')" by (cases r)
      with Cons.IH x Some Inr show ?thesis
        by auto
    qed
  qed
qed

lemma interleave_returns:
  "(\<exists>s' g'. interleave H M s g = Inr (s', g')) \<longleftrightarrow>
     length (buffers g) = 1 \<or> (length (buffers g) = 2 \<and> indexBuffer g \<noteq> None) \<or>
     readable (fst (new_Buffer_default s)) g"
proof (cases "length (buffers g) = 1 \<or> (length (buffers g) = 2 \<and> indexBuffer g \<noteq> None)")
  case True
  then show ?thesis by (auto simp: interleave_def)
next
  case False
  obtain s1 ib where nb: "new_Buffer_default s = (s1, ib)"
    by (cases "new_Buffer_default s")
  show ?thesis
  proof (cases "gather M s1 (buffers g) (attributes g)")
    case (Inl e)
    then have "\<not> readable s1 g"
      using gather_returns [of M s1 "buffers g" "attributes g"] by (auto simp: readable_def)
    with False nb Inl show ?thesis
      by (auto simp: interleave_def split: prod.splits)
  next
    case (Inr r)
    obtain arrays sizes m' where r: "r = (arrays, sizes, m')" by (cases r)
    have rd: "readable s1 g \<longleftrightarrow> list_all (\<lambda>x. x \<noteq> None) arrays"
      using gather_returns [of M s1 "buffers g" "attributes g"] Inr r
      by (auto simp: readable_def)
    show ?thesis
    proof (cases "interleaveTypedArrays H arrays sizes")
      case Inl2: (Inl e)
      then have "\<not> list_all (\<lambda>x. x \<noteq> None) arrays"
        using interleaveTypedArrays_returns [of H arrays sizes] by auto
      with False nb Inr r Inl2 rd show ?thesis
        by (auto simp: interleave_def)
    next
      case Inr2: (Inr out)
      then have "list_all (\<lambda>x. x \<noteq> None) arrays"
        using interleaveTypedArrays_returns [of H arrays sizes] by auto
      with False nb Inr r Inr2 rd show ?thesis
        by (auto simp: interleave_def split: prod.splits)
    qed
  qed
qed

lemma readable_after_default:
  assumes "valid_refs s (buffers g)"
  shows "readable (fst (new_Buffer_default s)) g = readable s g"
proof -
  have "data_of (fst (new_Buffer_default s)) b = data_of s b" if "b \<in> set (buffers g)" for b
    using valid_refs_data_of_grow [OF assms that, of "[\<lparr>data = Some (length (arrs s)), index = False\<rparr>]"
        "[Float32Array []]"]
    by (simp add: new_Buffer_default_def alloc_array_def new_Buffer_def)
  then have "(case js_nth (buffers g) i of None \<Rightarrow> False
                | Some b \<Rightarrow> data_of (fst (new_Buffer_default s)) b \<noteq> None) =
             (case js_nth (buffers g) i of None \<Rightarrow> False | Some b \<Rightarrow> data_of s b \<noteq> None)" for i
    by (auto simp: js_nth_def)
  then show ?thesis
    by (simp add: readable_def)
qed

section \<open>Where interleaving puts the elements\<close>




lemma length_place [simp]: "length (place out xs j sz st lo) = length out"
  by (induction xs arbitrary: out j) (auto split: option.splits)














lemma destroy_others_arrs [simp]: "arrs (destroy_others s bs i) = arrs s"
  by (induction bs arbitrary: s) (simp_all add: Buffer_destroy_def)

lemma destroy_others_length [simp]: "length (bufs (destroy_others s bs i)) = length (bufs s)"
  by (induction bs arbitrary: s) (simp_all add: Buffer_destroy_def)





section \<open>Merging two geometries of one vertex buffer and one index buffer\<close>

text \<open>
  The passes of \<^verbatim>\<open>merge\<close> on two geometries with two buffer slots, for both orders of
  the vertex buffer and the index buffer. The new arrays and Buffers go at the end of the
  store, and the data of the inputs is read unchanged throughout.
\<close>

lemma put_all_float:
  assumes "k + length vs \<le> length xs"
  shows "put_all (Float32Array xs) k vs = Float32Array (take k xs @ vs @ drop (k + length vs) xs)"
  using assms
proof (induction vs arbitrary: xs k)
  case Nil
  then show ?case by simp
next
  case (Cons v vs)
  from Cons.prems have k: "k < length xs" and rest: "Suc k + length vs \<le> length (xs[k := v])"
    by simp_all
  have "take (Suc k) (xs[k := v]) = take k xs @ [v]"
    using k by (simp add: take_Suc_conv_app_nth)
  with Cons.IH [OF rest] k show ?case
    by simp
qed

lemma trunc_of_nat: "trunc (of_nat n) = int n"
  by (simp add: trunc_def)

lemma to_uint16_of_uint16 [simp]: "to_uint16 (of_uint16 w) = w"
proof -
  have "to_uint16 (of_uint16 w) = word_of_int (int (unat w))"
    by (simp only: of_uint16_def to_uint16.simps trunc_of_nat)
  then show ?thesis
    by simp
qed

lemma put_all_uint16:
  assumes "k + length us \<le> length ws"
  shows "put_all (Uint16Array ws) k (map of_uint16 us) =
           Uint16Array (take k ws @ us @ drop (k + length us) ws)"
  using assms
proof (induction us arbitrary: ws k)
  case Nil
  then show ?case by simp
next
  case (Cons u us)
  from Cons.prems have k: "k < length ws" and rest: "Suc k + length us \<le> length (ws[k := u])"
    by simp_all
  have "take (Suc k) (ws[k := u]) = take k ws @ [u]"
    using k by (simp add: take_Suc_conv_app_nth)
  with Cons.IH [OF rest] k show ?case
    by simp
qed

lemma to_uint16_add_nat: "to_uint16 (js_add (of_uint16 w) (Num (of_nat p))) = w + of_nat p"
proof -
  have "js_add (of_uint16 w) (Num (of_nat p)) = Num (of_nat (unat w + p))"
    by (simp only: of_uint16_def js_add.simps of_nat_add)
  then have "to_uint16 (js_add (of_uint16 w) (Num (of_nat p))) = word_of_int (int (unat w + p))"
    by (simp only: to_uint16.simps trunc_of_nat)
  then show ?thesis
    by simp
qed

lemma add_offset_uint16:
  assumes "k + n \<le> length ws"
  shows "add_offset (Uint16Array ws) k n (Num (of_nat p)) =
           Uint16Array (take k ws @ map (\<lambda>w. w + of_nat p) (take n (drop k ws)) @ drop (k + n) ws)"
  using assms
proof (induction n arbitrary: ws k)
  case 0
  then show ?case by simp
next
  case (Suc n)
  from Suc.prems have k: "k < length ws"
    by simp
  let ?ws = "ws[k := ws ! k + of_nat p]"
  have step: "add_offset (Uint16Array ws) k (Suc n) (Num (of_nat p)) =
                add_offset (Uint16Array ?ws) (Suc k) n (Num (of_nat p))"
    using k by (simp add: to_uint16_add_nat)
  have rest: "Suc k + n \<le> length ?ws"
    using Suc.prems by simp
  have t: "take (Suc k) ?ws = take k ws @ [ws ! k + of_nat p]"
    using k by (simp add: take_Suc_conv_app_nth)
  have d: "take (Suc n) (drop k ws) = ws ! k # take n (drop (Suc k) ws)"
    using k by (simp add: Cons_nth_drop_Suc [symmetric])
  from Suc.IH [OF rest] step t d show ?case
    by simp
qed

lemma nth_append_Suc_length [simp]: "(xs @ [a, b]) ! Suc (length xs) = b"
  by (simp add: nth_append)

lemma update_append_Suc_length [simp]: "(xs @ [a, b])[Suc (length xs) := c] = xs @ [a, c]"
  by (simp add: list_update_append)

lemma ta_set_float:
  assumes "k + length d \<le> length xs"
  shows "ta_set (Float32Array xs) (Float32Array d) k =
           Inr (Float32Array (take k xs @ d @ drop (k + length d) xs))"
  using assms by (simp add: ta_set_def put_all_float)

lemma ta_set_uint16:
  assumes "k + length us \<le> length ws"
  shows "ta_set (Uint16Array ws) (Uint16Array us) k =
           Inr (Uint16Array (take k ws @ us @ drop (k + length us) ws))"
  using assms by (simp add: ta_set_def put_all_uint16)

lemma merge_two_phase_one:
  assumes "buffers g1 = [v1, i1]" and "buffers g2 = [v2, i2]"
      and "data_of s v1 = Some (Float32Array d1)" and "data_of s i1 = Some (Uint16Array t1)"
      and "data_of s v2 = Some (Float32Array d2)" and "data_of s i2 = Some (Uint16Array t2)"
  shows "pass_one s [g1, g2] [] = Inr [length d1 + length d2, length t1 + length t2]"
  using assms by simp

lemma merge_two_phase_build:
  assumes dv2: "data_of s v2 = Some (Float32Array d2)" and di2: "data_of s i2 = Some (Uint16Array t2)"
      and valid: "valid_refs s [v2, i2]"
  shows "build_arrays s [v2, i2] [n, m] =
           Inr (s\<lparr>arrs := arrs s @ [Float32Array (replicate n (Num 0)), Uint16Array (replicate m 0)],
                  bufs := bufs s @ [\<lparr>data = Some (length (arrs s)), index = False\<rparr>,
                                   \<lparr>data = Some (Suc (length (arrs s))), index = False\<rparr>]\<rparr>,
                [length (arrs s), Suc (length (arrs s))],
                [length (bufs s), Suc (length (bufs s))])"
proof -
  let ?s1 = "s\<lparr>arrs := arrs s @ [Float32Array (replicate n (Num 0))],
               bufs := bufs s @ [\<lparr>data = Some (length (arrs s)), index = False\<rparr>]\<rparr>"
  have "data_of ?s1 i2 = data_of s i2"
    using valid by (intro valid_refs_data_of_grow [of s "[v2, i2]"]) simp_all
  with di2 have i2: "data_of ?s1 i2 = Some (Uint16Array t2)"
    by simp
  show ?thesis
    using dv2 i2 by (simp add: alloc_array_def new_Buffer_def)
qed

lemma copy_slots_two:
  assumes dv: "data_of s v = Some (Float32Array d)" and di: "data_of s i = Some (Uint16Array t)"
      and valid: "valid_refs s [v, i]"
      and fit: "k + length d \<le> length xs" "l + length t \<le> length ws"
  shows "copy_slots
           (s\<lparr>arrs := arrs s @ [Float32Array xs, Uint16Array ws], bufs := bufs s @ X\<rparr>)
           [length (arrs s), Suc (length (arrs s))] [v, i] [k, l] =
         Inr (s\<lparr>arrs := arrs s @ [Float32Array (take k xs @ d @ drop (k + length d) xs),
                                   Uint16Array (take l ws @ t @ drop (l + length t) ws)],
                bufs := bufs s @ X\<rparr>,
              [k + length d, l + length t])"
proof -
  have frame: "data_of (s\<lparr>arrs := arrs s @ Y, bufs := bufs s @ X\<rparr>) b = data_of s b"
    if "b \<in> set [v, i]" for b Y
    using valid that by (rule valid_refs_data_of_grow)
  have v: "data_of (s\<lparr>arrs := arrs s @ Y, bufs := bufs s @ X\<rparr>) v = Some (Float32Array d)" for Y
    using frame [of v Y] dv by simp
  have i: "data_of (s\<lparr>arrs := arrs s @ Y, bufs := bufs s @ X\<rparr>) i = Some (Uint16Array t)" for Y
    using frame [of i Y] di by simp
  have swap: "s\<lparr>bufs := bufs s @ X, arrs := arrs s @ Y\<rparr> =
              s\<lparr>arrs := arrs s @ Y, bufs := bufs s @ X\<rparr>" for Y
    by simp
  have v': "data_of (s\<lparr>bufs := bufs s @ X, arrs := arrs s @ Y\<rparr>) v = Some (Float32Array d)" for Y
    using v [of Y] by (simp only: swap)
  have i': "data_of (s\<lparr>bufs := bufs s @ X, arrs := arrs s @ Y\<rparr>) i = Some (Uint16Array t)" for Y
    using i [of Y] by (simp only: swap)
  show ?thesis
    using fit by (simp add: v i v' i' ta_set_float ta_set_uint16 Let_def)
qed

lemma add_offset_zero:
  assumes "n \<le> length ws"
  shows "add_offset (Uint16Array ws) 0 n (Num 0) = Uint16Array ws"
proof -
  have "add_offset (Uint16Array ws) 0 n (Num (of_nat 0)) =
          Uint16Array (take 0 ws @ map (\<lambda>w. w + of_nat 0) (take n (drop 0 ws)) @ drop (0 + n) ws)"
    using assms by (intro add_offset_uint16) simp
  then show ?thesis
    by simp
qed

lemma add_offset_tail:
  assumes "length ws = k + n"
  shows "add_offset (Uint16Array ws) k n (Num (of_nat p)) =
           Uint16Array (take k ws @ map (\<lambda>w. w + of_nat p) (drop k ws))"
proof -
  have "add_offset (Uint16Array ws) k n (Num (of_nat p)) =
          Uint16Array (take k ws @ map (\<lambda>w. w + of_nat p) (take n (drop k ws)) @ drop (k + n) ws)"
    using assms by (intro add_offset_uint16) simp
  with assms show ?thesis
    by simp
qed

lemma vertex_count:
  assumes "st \<noteq> 0" and "of_nat count = of_nat P * st"
  shows "js_add (Num 0) (js_div (Num (of_nat count)) (Num st)) = Num (of_nat P)"
  using assms by simp

lemma offset_indices_two:
  assumes ib1: "indexBuffer g1 = Some i1" and ib2: "indexBuffer g2 = Some i2"
      and di1: "data_of s i1 = Some (Uint16Array t1)" and di2: "data_of s i2 = Some (Uint16Array t2)"
      and valid: "valid_refs s [i1, i2]"
      and len: "length ws = length t1 + length t2"
      and st: "st \<noteq> 0" and P: "of_nat count = of_nat P * st"
  shows "offset_indices
           (s\<lparr>arrs := arrs s @ [Z, Uint16Array ws], bufs := bufs s @ X\<rparr>)
           (Suc (length (arrs s))) [g1, g2] count (Num st) (Num 0) 0 =
         Inr (s\<lparr>arrs := arrs s @ [Z, Uint16Array (take (length t1) ws @
                                       map (\<lambda>w. w + of_nat P) (drop (length t1) ws))],
                bufs := bufs s @ X\<rparr>)"
proof -
  have frame: "data_of (s\<lparr>arrs := arrs s @ Y, bufs := bufs s @ X\<rparr>) b = data_of s b"
    if "b \<in> set [i1, i2]" for b Y
    using valid that by (rule valid_refs_data_of_grow)
  have swap: "s\<lparr>bufs := bufs s @ X, arrs := arrs s @ Y\<rparr> =
              s\<lparr>arrs := arrs s @ Y, bufs := bufs s @ X\<rparr>" for Y
    by simp
  have a: "data_of (s\<lparr>arrs := arrs s @ Y, bufs := bufs s @ X\<rparr>) i1 = Some (Uint16Array t1)" for Y
    using frame [of i1 Y] di1 by simp
  have b: "data_of (s\<lparr>arrs := arrs s @ Y, bufs := bufs s @ X\<rparr>) i2 = Some (Uint16Array t2)" for Y
    using frame [of i2 Y] di2 by simp
  have a': "data_of (s\<lparr>bufs := bufs s @ X, arrs := arrs s @ Y\<rparr>) i1 = Some (Uint16Array t1)" for Y
    using a [of Y] by (simp only: swap)
  have b': "data_of (s\<lparr>bufs := bufs s @ X, arrs := arrs s @ Y\<rparr>) i2 = Some (Uint16Array t2)" for Y
    using b [of Y] by (simp only: swap)
  have z: "add_offset (Uint16Array ws) 0 (length t1) (Num 0) = Uint16Array ws"
    using len by (intro add_offset_zero) simp
  have p: "add_offset (Uint16Array ws) (length t1) (length t2) (Num (of_nat P)) =
             Uint16Array (take (length t1) ws @ map (\<lambda>w. w + of_nat P) (drop (length t1) ws))"
    using len by (rule add_offset_tail)
  note vc = vertex_count [OF st P]
  show ?thesis
    using ib1 ib2 by (simp add: a b a' b' z p vc del: js_add.simps js_div.simps)
qed

lemma merge_vertex_first:
  assumes b1: "buffers g1 = [v1, i1]" and ib1: "indexBuffer g1 = Some i1"
      and b2: "buffers g2 = [v2, i2]" and ib2: "indexBuffer g2 = Some i2" and ne: "v2 \<noteq> i2"
      and dv1: "data_of s v1 = Some (Float32Array d1)"
      and di1: "data_of s i1 = Some (Uint16Array [0, 1, 2])"
      and dv2: "data_of s v2 = Some (Float32Array d2)"
      and di2: "data_of s i2 = Some (Uint16Array [0, 1, 2])"
      and valid: "valid_refs s [v1, i1, v2, i2]"
      and strd: "slot_stride GL_SIZE_MAP (attributes g2) 0 (Num 0) = Num st" and pos: "0 < st"
      and P1: "of_nat (length d1) = of_nat P * st" and P2: "of_nat (length d2) = of_nat P * st"
  shows "\<exists>s' g' vo io.
           merge GL_SIZE_MAP s [g1, g2] = Inr (s', g') \<and>
           buffers g' = [vo, io] \<and> indexBuffer g' = Some io \<and> attributes g' = attributes g2 \<and>
           data_of s' vo = Some (Float32Array (d1 @ d2)) \<and>
           of_nat (length (d1 @ d2)) = 2 * of_nat P * st \<and>
           data_of s' io = Some (Uint16Array [0, 1, 2, of_nat P, of_nat P + 1, of_nat P + 2])"
proof -
  let ?A = "length (arrs s)" and ?B = "length (bufs s)"
  let ?n1 = "length d1" and ?n2 = "length d2"
  let ?X = "[\<lparr>data = Some ?A, index = False\<rparr>, \<lparr>data = Some (Suc ?A), index = False\<rparr>]"
  let ?X' = "[\<lparr>data = Some ?A, index = False\<rparr>, \<lparr>data = Some (Suc ?A), index = True\<rparr>]"
  let ?st = "\<lambda>Y X. s\<lparr>arrs := arrs s @ Y, bufs := bufs s @ X\<rparr>"
  let ?Z1 = "Float32Array (replicate (?n1 + ?n2) (Num 0))" and ?Z2 = "Uint16Array (replicate 6 0)"
  let ?F1 = "Float32Array (d1 @ replicate ?n2 (Num 0))" and ?U1 = "Uint16Array [0, 1, 2, 0, 0, 0]"
  let ?F2 = "Float32Array (d1 @ d2)" and ?U2 = "Uint16Array [0, 1, 2, 0, 1, 2]"
  let ?U3 = "Uint16Array [0, 1, 2, of_nat P, of_nat P + 1, of_nat P + 2]"
  have v1: "valid_refs s [v1, i1]" and v2: "valid_refs s [v2, i2]" and vi: "valid_refs s [i1, i2]"
    using valid by (simp_all add: valid_refs_def)
  have six: "replicate 6 (0::16 word) = [0, 0, 0, 0, 0, 0]"
    by (simp add: eval_nat_numeral)
  have one: "pass_one s [g1, g2] [] = Inr [?n1 + ?n2, 6]"
    using merge_two_phase_one [OF b1 b2 dv1 di1 dv2 di2] by simp
  have build: "build_arrays s [v2, i2] [?n1 + ?n2, 6] =
                 Inr (?st [?Z1, ?Z2] ?X, [?A, Suc ?A], [?B, Suc ?B])"
    using merge_two_phase_build [OF dv2 di2 v2, where n = "?n1 + ?n2" and m = 6] by simp
  have c1: "copy_slots (?st [?Z1, ?Z2] ?X) [?A, Suc ?A] (buffers g1) [0, 0] =
              Inr (?st [?F1, ?U1] ?X, [?n1, 3])"
    using copy_slots_two [OF dv1 di1 v1, where k = 0 and xs = "replicate (?n1 + ?n2) (Num 0)"
        and l = 0 and ws = "replicate 6 0" and X = ?X] b1
    by (simp add: six)
  have c2: "copy_slots (?st [?F1, ?U1] ?X) [?A, Suc ?A] (buffers g2) [?n1, 3] =
              Inr (?st [?F2, ?U2] ?X, [?n1 + ?n2, 6])"
    using copy_slots_two [OF dv2 di2 v2, where k = ?n1 and xs = "d1 @ replicate ?n2 (Num 0)"
        and l = 3 and ws = "[0, 1, 2, 0, 0, 0]" and X = ?X] b2
    by simp
  have two: "pass_two (?st [?Z1, ?Z2] ?X) [?A, Suc ?A] [g1, g2] [0, 0] = Inr (?st [?F2, ?U2] ?X)"
    using c1 c2 by simp
  have idx: "indexOf [v2, i2] i2 = Some 1"
    using ne by simp
  have flag: "set_index (?st [?F2, ?U2] ?X) (Suc ?B) = ?st [?F2, ?U2] ?X'"
    by (simp add: set_index_def)
  have slot: "bufferIndexToCount [v2, i2] i2 = 0"
    using ne by (simp add: bufferIndexToCount_def)
  have out: "data (bufs (?st [?F2, ?U2] ?X') ! Suc ?B) = Some (Suc ?A)"
    by simp
  have cnt: "data_of (?st [?F2, ?U2] ?X') v2 = Some (Float32Array d2)"
    using valid_refs_data_of_grow [OF v2, where b = v2 and ys = "[?F2, ?U2]" and xs = ?X'] dv2
    by simp
  have st0: "st \<noteq> 0"
    using pos by simp
  have off: "offset_indices (?st [?F2, ?U2] ?X') (Suc ?A) [g1, g2] ?n2 (Num st) (Num 0) 0 =
               Inr (?st [?F2, ?U3] ?X')"
    using offset_indices_two [OF ib1 ib2 di1 di2 vi _ st0 P2,
        where ws = "[0, 1, 2, 0, 1, 2]" and Z = ?F2 and X = ?X']
    by simp
  let ?g' = "(new_Geometry None None)\<lparr>buffers := [?B, Suc ?B], attributes := attributes g2,
               indexBuffer := Some (Suc ?B)\<rparr>"
  have call: "merge GL_SIZE_MAP s [g1, g2] = Inr (?st [?F2, ?U3] ?X', ?g')"
    using ne
    by (simp add: merge_def one build two idx flag slot out cnt off ib2 b2 strd js_nth_def
        del: pass_one.simps pass_two.simps build_arrays.simps offset_indices.simps)
  have vo: "data_of (?st [?F2, ?U3] ?X') ?B = Some ?F2"
    by (simp add: data_of_def)
  have io: "data_of (?st [?F2, ?U3] ?X') (Suc ?B) = Some ?U3"
    by (simp add: data_of_def)
  have total: "(of_nat (length (d1 @ d2)) :: rat) = 2 * of_nat P * st"
    using P1 P2 by simp
  show ?thesis
    using call vo io total
    by (intro exI [of _ "?st [?F2, ?U3] ?X'"] exI [of _ ?g'] exI [of _ ?B] exI [of _ "Suc ?B"])
      (simp add: new_Geometry_def)
qed

lemma merge_two_phase_build_index_first:
  assumes di2: "data_of s i2 = Some (Uint16Array t2)" and dv2: "data_of s v2 = Some (Float32Array d2)"
      and valid: "valid_refs s [i2, v2]"
  shows "build_arrays s [i2, v2] [m, n] =
           Inr (s\<lparr>arrs := arrs s @ [Uint16Array (replicate m 0), Float32Array (replicate n (Num 0))],
                  bufs := bufs s @ [\<lparr>data = Some (length (arrs s)), index = False\<rparr>,
                                   \<lparr>data = Some (Suc (length (arrs s))), index = False\<rparr>]\<rparr>,
                [length (arrs s), Suc (length (arrs s))],
                [length (bufs s), Suc (length (bufs s))])"
proof -
  let ?s1 = "s\<lparr>arrs := arrs s @ [Uint16Array (replicate m 0)],
               bufs := bufs s @ [\<lparr>data = Some (length (arrs s)), index = False\<rparr>]\<rparr>"
  have "data_of ?s1 v2 = data_of s v2"
    using valid by (intro valid_refs_data_of_grow [of s "[i2, v2]"]) simp_all
  with dv2 have v2: "data_of ?s1 v2 = Some (Float32Array d2)"
    by simp
  show ?thesis
    using di2 v2 by (simp add: alloc_array_def new_Buffer_def)
qed

lemma copy_slots_two_index_first:
  assumes di: "data_of s i = Some (Uint16Array t)" and dv: "data_of s v = Some (Float32Array d)"
      and valid: "valid_refs s [i, v]"
      and fit: "l + length t \<le> length ws" "k + length d \<le> length xs"
  shows "copy_slots
           (s\<lparr>arrs := arrs s @ [Uint16Array ws, Float32Array xs], bufs := bufs s @ X\<rparr>)
           [length (arrs s), Suc (length (arrs s))] [i, v] [l, k] =
         Inr (s\<lparr>arrs := arrs s @ [Uint16Array (take l ws @ t @ drop (l + length t) ws),
                                   Float32Array (take k xs @ d @ drop (k + length d) xs)],
                bufs := bufs s @ X\<rparr>,
              [l + length t, k + length d])"
proof -
  have frame: "data_of (s\<lparr>arrs := arrs s @ Y, bufs := bufs s @ X\<rparr>) b = data_of s b"
    if "b \<in> set [i, v]" for b Y
    using valid that by (rule valid_refs_data_of_grow)
  have v: "data_of (s\<lparr>arrs := arrs s @ Y, bufs := bufs s @ X\<rparr>) v = Some (Float32Array d)" for Y
    using frame [of v Y] dv by simp
  have i: "data_of (s\<lparr>arrs := arrs s @ Y, bufs := bufs s @ X\<rparr>) i = Some (Uint16Array t)" for Y
    using frame [of i Y] di by simp
  have swap: "s\<lparr>bufs := bufs s @ X, arrs := arrs s @ Y\<rparr> =
              s\<lparr>arrs := arrs s @ Y, bufs := bufs s @ X\<rparr>" for Y
    by simp
  have v': "data_of (s\<lparr>bufs := bufs s @ X, arrs := arrs s @ Y\<rparr>) v = Some (Float32Array d)" for Y
    using v [of Y] by (simp only: swap)
  have i': "data_of (s\<lparr>bufs := bufs s @ X, arrs := arrs s @ Y\<rparr>) i = Some (Uint16Array t)" for Y
    using i [of Y] by (simp only: swap)
  show ?thesis
    using fit by (simp add: v i v' i' ta_set_float ta_set_uint16 Let_def)
qed

lemma offset_indices_two_index_first:
  assumes ib1: "indexBuffer g1 = Some i1" and ib2: "indexBuffer g2 = Some i2"
      and di1: "data_of s i1 = Some (Uint16Array t1)" and di2: "data_of s i2 = Some (Uint16Array t2)"
      and valid: "valid_refs s [i1, i2]"
      and len: "length ws = length t1 + length t2"
      and st: "st \<noteq> 0" and P: "of_nat count = of_nat P * st"
  shows "offset_indices
           (s\<lparr>arrs := arrs s @ [Uint16Array ws, Z], bufs := bufs s @ X\<rparr>)
           (length (arrs s)) [g1, g2] count (Num st) (Num 0) 0 =
         Inr (s\<lparr>arrs := arrs s @ [Uint16Array (take (length t1) ws @
                                       map (\<lambda>w. w + of_nat P) (drop (length t1) ws)), Z],
                bufs := bufs s @ X\<rparr>)"
proof -
  have frame: "data_of (s\<lparr>arrs := arrs s @ Y, bufs := bufs s @ X\<rparr>) b = data_of s b"
    if "b \<in> set [i1, i2]" for b Y
    using valid that by (rule valid_refs_data_of_grow)
  have swap: "s\<lparr>bufs := bufs s @ X, arrs := arrs s @ Y\<rparr> =
              s\<lparr>arrs := arrs s @ Y, bufs := bufs s @ X\<rparr>" for Y
    by simp
  have a: "data_of (s\<lparr>arrs := arrs s @ Y, bufs := bufs s @ X\<rparr>) i1 = Some (Uint16Array t1)" for Y
    using frame [of i1 Y] di1 by simp
  have b: "data_of (s\<lparr>arrs := arrs s @ Y, bufs := bufs s @ X\<rparr>) i2 = Some (Uint16Array t2)" for Y
    using frame [of i2 Y] di2 by simp
  have a': "data_of (s\<lparr>bufs := bufs s @ X, arrs := arrs s @ Y\<rparr>) i1 = Some (Uint16Array t1)" for Y
    using a [of Y] by (simp only: swap)
  have b': "data_of (s\<lparr>bufs := bufs s @ X, arrs := arrs s @ Y\<rparr>) i2 = Some (Uint16Array t2)" for Y
    using b [of Y] by (simp only: swap)
  have z: "add_offset (Uint16Array ws) 0 (length t1) (Num 0) = Uint16Array ws"
    using len by (intro add_offset_zero) simp
  have p: "add_offset (Uint16Array ws) (length t1) (length t2) (Num (of_nat P)) =
             Uint16Array (take (length t1) ws @ map (\<lambda>w. w + of_nat P) (drop (length t1) ws))"
    using len by (rule add_offset_tail)
  note vc = vertex_count [OF st P]
  show ?thesis
    using ib1 ib2 by (simp add: a b a' b' z p vc del: js_add.simps js_div.simps)
qed

lemma merge_index_first:
  assumes b1: "buffers g1 = [i1, v1]" and ib1: "indexBuffer g1 = Some i1"
      and b2: "buffers g2 = [i2, v2]" and ib2: "indexBuffer g2 = Some i2" and ne: "v2 \<noteq> i2"
      and dv1: "data_of s v1 = Some (Float32Array d1)"
      and di1: "data_of s i1 = Some (Uint16Array [0, 1, 2])"
      and dv2: "data_of s v2 = Some (Float32Array d2)"
      and di2: "data_of s i2 = Some (Uint16Array [0, 1, 2])"
      and valid: "valid_refs s [v1, i1, v2, i2]"
      and strd: "slot_stride GL_SIZE_MAP (attributes g2) 1 (Num 0) = Num st" and pos: "0 < st"
      and P1: "of_nat (length d1) = of_nat P * st" and P2: "of_nat (length d2) = of_nat P * st"
  shows "\<exists>s' g' vo io.
           merge GL_SIZE_MAP s [g1, g2] = Inr (s', g') \<and>
           buffers g' = [io, vo] \<and> indexBuffer g' = Some io \<and> attributes g' = attributes g2 \<and>
           data_of s' vo = Some (Float32Array (d1 @ d2)) \<and>
           of_nat (length (d1 @ d2)) = 2 * of_nat P * st \<and>
           data_of s' io = Some (Uint16Array [0, 1, 2, of_nat P, of_nat P + 1, of_nat P + 2])"
proof -
  let ?A = "length (arrs s)" and ?B = "length (bufs s)"
  let ?n1 = "length d1" and ?n2 = "length d2"
  let ?X = "[\<lparr>data = Some ?A, index = False\<rparr>, \<lparr>data = Some (Suc ?A), index = False\<rparr>]"
  let ?X' = "[\<lparr>data = Some ?A, index = True\<rparr>, \<lparr>data = Some (Suc ?A), index = False\<rparr>]"
  let ?st = "\<lambda>Y X. s\<lparr>arrs := arrs s @ Y, bufs := bufs s @ X\<rparr>"
  let ?Z1 = "Float32Array (replicate (?n1 + ?n2) (Num 0))" and ?Z2 = "Uint16Array (replicate 6 0)"
  let ?F1 = "Float32Array (d1 @ replicate ?n2 (Num 0))" and ?U1 = "Uint16Array [0, 1, 2, 0, 0, 0]"
  let ?F2 = "Float32Array (d1 @ d2)" and ?U2 = "Uint16Array [0, 1, 2, 0, 1, 2]"
  let ?U3 = "Uint16Array [0, 1, 2, of_nat P, of_nat P + 1, of_nat P + 2]"
  have v1: "valid_refs s [i1, v1]" and v2: "valid_refs s [i2, v2]" and vi: "valid_refs s [i1, i2]"
    using valid by (simp_all add: valid_refs_def)
  have six: "replicate 6 (0::16 word) = [0, 0, 0, 0, 0, 0]"
    by (simp add: eval_nat_numeral)
  have one: "pass_one s [g1, g2] [] = Inr [6, ?n1 + ?n2]"
    using b1 b2 dv1 di1 dv2 di2 by simp
  have build: "build_arrays s [i2, v2] [6, ?n1 + ?n2] =
                 Inr (?st [?Z2, ?Z1] ?X, [?A, Suc ?A], [?B, Suc ?B])"
    using merge_two_phase_build_index_first [OF di2 dv2 v2, where n = "?n1 + ?n2" and m = 6]
    by simp
  have c1: "copy_slots (?st [?Z2, ?Z1] ?X) [?A, Suc ?A] (buffers g1) [0, 0] =
              Inr (?st [?U1, ?F1] ?X, [3, ?n1])"
    using copy_slots_two_index_first [OF di1 dv1 v1, where k = 0
        and xs = "replicate (?n1 + ?n2) (Num 0)" and l = 0 and ws = "replicate 6 0" and X = ?X] b1
    by (simp add: six)
  have c2: "copy_slots (?st [?U1, ?F1] ?X) [?A, Suc ?A] (buffers g2) [3, ?n1] =
              Inr (?st [?U2, ?F2] ?X, [6, ?n1 + ?n2])"
    using copy_slots_two_index_first [OF di2 dv2 v2, where k = ?n1
        and xs = "d1 @ replicate ?n2 (Num 0)" and l = 3 and ws = "[0, 1, 2, 0, 0, 0]" and X = ?X] b2
    by simp
  have two: "pass_two (?st [?Z2, ?Z1] ?X) [?A, Suc ?A] [g1, g2] [0, 0] = Inr (?st [?U2, ?F2] ?X)"
    using c1 c2 by simp
  have idx: "indexOf [i2, v2] i2 = Some 0"
    by simp
  have flag: "set_index (?st [?U2, ?F2] ?X) ?B = ?st [?U2, ?F2] ?X'"
    by (simp add: set_index_def)
  have slot: "bufferIndexToCount [i2, v2] i2 = 1"
    using ne by (simp add: bufferIndexToCount_def)
  have out: "data (bufs (?st [?U2, ?F2] ?X') ! ?B) = Some ?A"
    by simp
  have cnt: "data_of (?st [?U2, ?F2] ?X') v2 = Some (Float32Array d2)"
    using valid_refs_data_of_grow [OF v2, where b = v2 and ys = "[?U2, ?F2]" and xs = ?X'] dv2
    by simp
  have st0: "st \<noteq> 0"
    using pos by simp
  have off: "offset_indices (?st [?U2, ?F2] ?X') ?A [g1, g2] ?n2 (Num st) (Num 0) 0 =
               Inr (?st [?U3, ?F2] ?X')"
    using offset_indices_two_index_first [OF ib1 ib2 di1 di2 vi _ st0 P2,
        where ws = "[0, 1, 2, 0, 1, 2]" and Z = ?F2 and X = ?X']
    by simp
  let ?g' = "(new_Geometry None None)\<lparr>buffers := [?B, Suc ?B], attributes := attributes g2,
               indexBuffer := Some ?B\<rparr>"
  from strd have strd': "slot_stride GL_SIZE_MAP (attributes g2) (Suc 0) (Num 0) = Num st"
    by simp
  have call: "merge GL_SIZE_MAP s [g1, g2] = Inr (?st [?U3, ?F2] ?X', ?g')"
    using ne
    by (simp add: merge_def one build two idx flag slot out cnt off ib2 b2 strd' js_nth_def
        del: pass_one.simps pass_two.simps build_arrays.simps offset_indices.simps)
  have vo: "data_of (?st [?U3, ?F2] ?X') (Suc ?B) = Some ?F2"
    by (simp add: data_of_def)
  have io: "data_of (?st [?U3, ?F2] ?X') ?B = Some ?U3"
    by (simp add: data_of_def)
  have total: "(of_nat (length (d1 @ d2)) :: rat) = 2 * of_nat P * st"
    using P1 P2 by simp
  show ?thesis
    using call vo io total
    by (intro exI [of _ "?st [?U3, ?F2] ?X'"] exI [of _ ?g'] exI [of _ "Suc ?B"] exI [of _ ?B])
      (simp add: new_Geometry_def)
qed

section \<open>Example geometries\<close>

text \<open>
  The quad of the class comment: four 2D positions in one buffer, four texture
  coordinates in another, and an index buffer of two triangles.
\<close>

definition quad_store :: store where
  "quad_store =
     \<lparr>bufs = [\<lparr>data = Some 0, index = False\<rparr>, \<lparr>data = Some 1, index = False\<rparr>,
              \<lparr>data = Some 2, index = True\<rparr>],
      arrs = [Float32Array [Num 0, Num 0, Num 100, Num 0, Num 100, Num 100, Num 0, Num 100],
              Float32Array [Num 0, Num 0, Num 1, Num 0, Num 1, Num 1, Num 0, Num 1],
              Uint16Array [0, 1, 2, 1, 3, 2]]\<rparr>"

definition quad :: Geometry where
  "quad =
     \<lparr>buffers = [0, 1, 2], indexBuffer = Some 2,
      attributes = [(''positions'', new_Attribute 0 2 False 5126 None None False),
                    (''uvs'', new_Attribute 1 2 False 5126 None None False)],
      glVertexArrayObjects = []\<rparr>"

text \<open>A table of byte widths for \<^verbatim>\<open>GL_SIZE_MAP\<close>: FLOAT, UNSIGNED_SHORT, UNSIGNED_BYTE.\<close>

definition byte_sizes :: "nat \<Rightarrow> jsnum" where
  "byte_sizes t =
     (if t = 5126 then Num 4 else if t = 5123 then Num 2 else if t = 5121 then Num 1 else NaN)"

text \<open>
  Two geometries of the same layout, one float per vertex: a point (one vertex, index
  buffer \<open>[0]\<close>) and a segment (two vertices, index buffer \<open>[0, 1]\<close>).
\<close>

definition strip_store :: store where
  "strip_store =
     \<lparr>bufs = [\<lparr>data = Some 0, index = False\<rparr>, \<lparr>data = Some 1, index = True\<rparr>,
              \<lparr>data = Some 2, index = False\<rparr>, \<lparr>data = Some 3, index = True\<rparr>],
      arrs = [Float32Array [Num 7], Uint16Array [0],
              Float32Array [Num 8, Num 9], Uint16Array [0, 1]]\<rparr>"

definition point :: Geometry where
  "point =
     \<lparr>buffers = [0, 1], indexBuffer = Some 1,
      attributes = [(''x'', new_Attribute 0 1 False 5126 None None False)],
      glVertexArrayObjects = []\<rparr>"

definition segment :: Geometry where
  "segment =
     \<lparr>buffers = [2, 3], indexBuffer = Some 3,
      attributes = [(''x'', new_Attribute 0 1 False 5126 None None False)],
      glVertexArrayObjects = []\<rparr>"

text \<open>
  A smaller geometry: two vertices with one float \<open>a\<close> and one float \<open>b\<close> each, in
  two buffers, and an index buffer; and what \<^verbatim>\<open>interleave()\<close> makes of it.
\<close>

definition duo_store :: store where
  "duo_store =
     \<lparr>bufs = [\<lparr>data = Some 0, index = False\<rparr>, \<lparr>data = Some 1, index = False\<rparr>,
              \<lparr>data = Some 2, index = True\<rparr>],
      arrs = [Float32Array [Num 1, Num 2], Float32Array [Num 10, Num 20],
              Uint16Array [0, 1]]\<rparr>"

definition duo :: Geometry where
  "duo =
     \<lparr>buffers = [0, 1, 2], indexBuffer = Some 2,
      attributes = [(''a'', new_Attribute 0 1 False 5126 None None False),
                    (''b'', new_Attribute 1 1 False 5126 None None False)],
      glVertexArrayObjects = []\<rparr>"

definition duo_interleaved_store :: store where
  "duo_interleaved_store =
     \<lparr>bufs = [\<lparr>data = None, index = False\<rparr>, \<lparr>data = None, index = False\<rparr>,
              \<lparr>data = Some 2, index = True\<rparr>, \<lparr>data = Some 4, index = False\<rparr>],
      arrs = [Float32Array [Num 1, Num 2], Float32Array [Num 10, Num 20],
              Uint16Array [0, 1], Float32Array [],
              Float32Array [Num 1, Num 10, Num 2, Num 20]]\<rparr>"

definition duo_interleaved :: Geometry where
  "duo_interleaved =
     \<lparr>buffers = [3, 2], indexBuffer = Some 2,
      attributes = [(''a'', new_Attribute 0 1 False 5126 None None False),
                    (''b'', new_Attribute 0 1 False 5126 None None False)],
      glVertexArrayObjects = []\<rparr>"



text \<open>
  No example holds a Uint16Array as the data of an attribute, so none of them stores a
  half word: for the examples the parameter \<open>halfword\<close> is a function that is never
  called.
\<close>

definition no_halfwords :: "jsnum \<Rightarrow> nat \<Rightarrow> 16 word \<Rightarrow> jsnum" where
  "no_halfwords w h v = w"

text \<open>
  A geometry that still lists a Buffer whose data was released (Buffer 0, the second of
  the list), with one attribute that reads it.
\<close>

definition stale_store :: store where
  "stale_store =
     \<lparr>bufs = [\<lparr>data = None, index = False\<rparr>, \<lparr>data = Some 0, index = False\<rparr>],
      arrs = [Float32Array [Num 1]]\<rparr>"

definition stale :: Geometry where
  "stale =
     \<lparr>buffers = [1, 0], indexBuffer = None,
      attributes = [(''a'', new_Attribute 1 1 False 5126 None None False)],
      glVertexArrayObjects = []\<rparr>"



text \<open>
  Two triangles of the same layout: three vertices of two floats each in a vertex
  buffer, and the index buffer \<open>[0, 1, 2]\<close>; and the store after merging them.
\<close>

definition tri_store :: store where
  "tri_store =
     \<lparr>bufs = [\<lparr>data = Some 0, index = False\<rparr>, \<lparr>data = Some 1, index = True\<rparr>,
              \<lparr>data = Some 2, index = False\<rparr>, \<lparr>data = Some 3, index = True\<rparr>],
      arrs = [Float32Array [Num 0, Num 0, Num 1, Num 0, Num 0, Num 1], Uint16Array [0, 1, 2],
              Float32Array [Num 5, Num 5, Num 6, Num 5, Num 5, Num 6], Uint16Array [0, 1, 2]]\<rparr>"

definition tri_a :: Geometry where
  "tri_a =
     \<lparr>buffers = [0, 1], indexBuffer = Some 1,
      attributes = [(''aPos'', new_Attribute 0 2 False 5126 None None False)],
      glVertexArrayObjects = []\<rparr>"

definition tri_b :: Geometry where
  "tri_b =
     \<lparr>buffers = [2, 3], indexBuffer = Some 3,
      attributes = [(''aPos'', new_Attribute 0 2 False 5126 None None False)],
      glVertexArrayObjects = []\<rparr>"

definition tri_merged_store :: store where
  "tri_merged_store =
     \<lparr>bufs = [\<lparr>data = Some 0, index = False\<rparr>, \<lparr>data = Some 1, index = True\<rparr>,
              \<lparr>data = Some 2, index = False\<rparr>, \<lparr>data = Some 3, index = True\<rparr>,
              \<lparr>data = Some 4, index = False\<rparr>, \<lparr>data = Some 5, index = True\<rparr>],
      arrs = [Float32Array [Num 0, Num 0, Num 1, Num 0, Num 0, Num 1], Uint16Array [0, 1, 2],
              Float32Array [Num 5, Num 5, Num 6, Num 5, Num 5, Num 6], Uint16Array [0, 1, 2],
              Float32Array [Num 0, Num 0, Num 1, Num 0, Num 0, Num 1,
                            Num 5, Num 5, Num 6, Num 5, Num 5, Num 6],
              Uint16Array [0, 1, 2, 3, 4, 5]]\<rparr>"

section \<open>The claims\<close>

text \<open>
  C9. A call of \<^verbatim>\<open>addAttribute\<close> that supplies no buffer or array fails at once with
  the explicit error of the source, and the store and the geometry (its buffers and its
  attributes) are as they were before the call.
\<close>

theorem addAttribute_without_buffer:
  "addAttribute s g name Undefined sz normalised ty sd st inst =
     Inl (Error ''You must pass a buffer when creating an attribute'', s, g)"
  by (simp add: addAttribute.simps(1))

text \<open>
  C10. For a name that is present in the attribute map, \<^verbatim>\<open>getAttribute\<close> returns the
  element of the buffer list at the attribute's buffer index, a reference to a Buffer
  object and not the Attribute descriptor; when the index is within the list this is
  the Buffer at that position.
\<close>

theorem getAttribute_returns_buffer:
  assumes "obj_get (attributes g) name = Some a"
  shows "getAttribute g name = Inr (js_nth (buffers g) (buffer a)) \<and>
         (buffer a < length (buffers g) \<longrightarrow>
            getAttribute g name = Inr (Some (buffers g ! buffer a)))"
  using assms by (simp add: getAttribute_def js_nth_def)

theorem getAttribute_returns_buffer_witness:
  "obj_get (attributes quad) ''uvs'' = Some (new_Attribute 1 2 False 5126 None None False) \<and>
   buffer (new_Attribute 1 2 False 5126 None None False) < length (buffers quad) \<and>
   getAttribute quad ''uvs'' = Inr (Some 1)"
proof -
  have h: "obj_get (attributes quad) ''uvs'' = Some (new_Attribute 1 2 False 5126 None None False)"
    by (simp add: quad_def obj_get_def)
  have r: "buffer (new_Attribute 1 2 False 5126 None None False) < length (buffers quad)"
    by (simp add: quad_def new_Attribute_def)
  from getAttribute_returns_buffer [OF h] r
  have "getAttribute quad ''uvs'' =
          Inr (Some (buffers quad ! buffer (new_Attribute 1 2 False 5126 None None False)))"
    by blast
  then show ?thesis using h r by (simp add: quad_def new_Attribute_def)
qed

text \<open>
  C8. When the name contains the separator \<^verbatim>\<open>|\<close> and a buffer or array is supplied,
  the call returns normally; every split name is then registered with an attribute
  that refers to one and the same slot of the buffer list, the slot of the shared
  Buffer; the Buffer is appended at most once (not at all when the list already had it);
  and nothing else is processed: no other entry of the attribute map changes, in
  particular none is made under the unsplit name, and the index buffer is untouched.
\<close>

theorem addAttribute_split_names:
  assumes sep: "CHR ''|'' \<in> set name"
      and arg: "as_Buffer Float32 s arg = Inr (s1, b)"
  shows "\<exists>g' slot.
           addAttribute s g name arg sz normalised ty sd st inst = Inr (s1, g') \<and>
           slot < length (buffers g') \<and> buffers g' ! slot = b \<and>
           (\<forall>n \<in> set (split_on CHR ''|'' name).
              obj_get (attributes g') n =
                Some (new_Attribute slot sz normalised ty None None False)) \<and>
           buffers g' = (if b \<in> set (buffers g) then buffers g else buffers g @ [b]) \<and>
           (\<forall>k. k \<notin> set (split_on CHR ''|'' name) \<longrightarrow>
              obj_get (attributes g') k = obj_get (attributes g) k) \<and>
           obj_get (attributes g') name = obj_get (attributes g) name \<and>
           indexBuffer g' = indexBuffer g"
proof -
  let ?ids = "split_on CHR ''|'' name"
  from arg have nu: "arg \<noteq> Undefined" by auto
  from as_Buffer_live [OF arg] obtain a where live: "data (bufs s1 ! b) = Some a" ..
  have pieces: "\<forall>n \<in> set ?ids. CHR ''|'' \<notin> set n"
    using split_on_no_sep by blast
  from addAttribute_ids_registers [OF pieces live, of g sz normalised ty] obtain g' where
    g': "addAttribute_ids s1 g ?ids b sz normalised ty = Inr (s1, g')"
        "buffers g' = (if ?ids = [] then buffers g else with_buffer (buffers g) b)"
        "indexBuffer g' = indexBuffer g"
        "\<forall>k. obj_get (attributes g') k =
              (if k \<in> set ?ids
               then Some (new_Attribute (slot_of (buffers g) b) sz normalised ty None None False)
               else obj_get (attributes g) k)"
    by blast
  have call: "addAttribute s g name arg sz normalised ty sd st inst = Inr (s1, g')"
    using nu arg split_on_many [OF sep] g'(1) by (simp add: addAttribute.simps(1))
  have bs: "buffers g' = with_buffer (buffers g) b"
    using g'(2) by (simp add: split_on_nonempty)
  have notin: "name \<notin> set ?ids"
    using pieces sep by blast
  show ?thesis
    apply (rule exI [of _ g'], rule exI [of _ "slot_of (buffers g) b"])
    using call bs g'(3,4) notin slot_of_in_range [of "buffers g" b]
    by (simp add: with_buffer_def)
qed

theorem addAttribute_split_names_witness:
  "CHR ''|'' \<in> set ''aPos|aUv'' \<and>
   as_Buffer Float32 \<lparr>bufs = [], arrs = []\<rparr> (JSArray [Num 0, Num 1]) =
     Inr (\<lparr>bufs = [\<lparr>data = Some 0, index = False\<rparr>], arrs = [Float32Array [Num 0, Num 1]]\<rparr>, 0) \<and>
   (\<exists>g'. addAttribute \<lparr>bufs = [], arrs = []\<rparr> (new_Geometry None None) ''aPos|aUv''
            (JSArray [Num 0, Num 1]) 2 False 5126 (Some 4) (Some 0) True =
          Inr (\<lparr>bufs = [\<lparr>data = Some 0, index = False\<rparr>],
                 arrs = [Float32Array [Num 0, Num 1]]\<rparr>, g') \<and>
        buffers g' = [0] \<and>
        obj_get (attributes g') ''aPos'' = Some (new_Attribute 0 2 False 5126 None None False) \<and>
        obj_get (attributes g') ''aUv'' = Some (new_Attribute 0 2 False 5126 None None False) \<and>
        obj_get (attributes g') ''aPos|aUv'' = None)"
proof -
  let ?s = "\<lparr>bufs = [], arrs = []\<rparr>"
  let ?s1 = "\<lparr>bufs = [\<lparr>data = Some 0, index = False\<rparr>], arrs = [Float32Array [Num 0, Num 1]]\<rparr>"
  have sep: "CHR ''|'' \<in> set ''aPos|aUv''"
    by simp
  have arg: "as_Buffer Float32 ?s (JSArray [Num 0, Num 1]) = Inr (?s1, 0)"
    by (simp add: alloc_array_def new_Buffer_def)
  have ids: "split_on CHR ''|'' ''aPos|aUv'' = [''aPos'', ''aUv'']"
    by simp
  from addAttribute_split_names [OF sep arg, of "new_Geometry None None" 2 False 5126 "Some 4" "Some 0" True]
  obtain g' slot where
    r: "addAttribute ?s (new_Geometry None None) ''aPos|aUv'' (JSArray [Num 0, Num 1]) 2 False 5126
          (Some 4) (Some 0) True = Inr (?s1, g')"
       "slot < length (buffers g')"
       "\<forall>n \<in> set (split_on CHR ''|'' ''aPos|aUv'').
          obj_get (attributes g') n = Some (new_Attribute slot 2 False 5126 None None False)"
       "buffers g' = (if 0 \<in> set (buffers (new_Geometry None None))
                      then buffers (new_Geometry None None)
                      else buffers (new_Geometry None None) @ [0])"
       "obj_get (attributes g') ''aPos|aUv'' = obj_get (attributes (new_Geometry None None)) ''aPos|aUv''"
    by blast
  have b: "buffers g' = [0]"
    using r(4) by (simp add: new_Geometry_def)
  with r(2) have "slot = 0"
    by simp
  with r(3) ids have "obj_get (attributes g') ''aPos'' = Some (new_Attribute 0 2 False 5126 None None False)"
    and "obj_get (attributes g') ''aUv'' = Some (new_Attribute 0 2 False 5126 None None False)"
    by simp_all
  moreover have "obj_get (attributes g') ''aPos|aUv'' = None"
    using r(5) by (simp add: new_Geometry_def obj_get_def)
  ultimately show ?thesis
    using sep arg r(1) b by blast
qed

text \<open>
  C1. The claim is that \<^verbatim>\<open>destroy()\<close> on a geometry without an index buffer does not
  fail. The code does fail: after the buffers have been destroyed and the buffer list and
  the cache set to null, \<^verbatim>\<open>this.indexBuffer.destroy()\<close> dereferences null, and the
  TypeError leaves the attribute map in place.
\<close>

theorem destroy_without_index_buffer:
  assumes "indexBuffer g = None"
  shows "\<exists>s' t. destroy s g = Inl (TypeError, s', t) \<and> torn_attributes t = Some (attributes g)"
  using assms by (simp add: destroy_def Let_def)

theorem destroy_without_index_buffer_witness:
  "indexBuffer (new_Geometry None None) = None \<and>
   destroy \<lparr>bufs = [], arrs = []\<rparr> (new_Geometry None None) =
     Inl (TypeError, \<lparr>bufs = [], arrs = []\<rparr>,
          \<lparr>torn_buffers = None, torn_indexBuffer = None, torn_attributes = Some [],
           torn_glVertexArrayObjects = None\<rparr>)"
proof -
  have h: "indexBuffer (new_Geometry None None) = None"
    by (simp add: new_Geometry_def)
  from destroy_without_index_buffer [OF h, of "\<lparr>bufs = [], arrs = []\<rparr>"]
  obtain s' t where
    "destroy \<lparr>bufs = [], arrs = []\<rparr> (new_Geometry None None) = Inl (TypeError, s', t)"
    by blast
  then show ?thesis
    using h by (simp add: destroy_def new_Geometry_def)
qed

text \<open>
  C2. The claim is that the indices of geometry \<open>i\<close> are raised by the vertex count of
  the geometries before it. The code advances the offset by the vertex count of the last
  geometry in every round. Merging the point (one vertex) and the segment, the indices
  \<open>[0, 1]\<close> of the segment become \<open>[2, 3]\<close>, not \<open>[1, 2]\<close>: the merged index buffer is
  \<open>[0, 2, 3]\<close> over the three vertices \<open>[7, 8, 9]\<close>.
\<close>

theorem merge_offsets_by_last_vertex_count:
  "merge byte_sizes strip_store [point, segment] =
     Inr (\<lparr>bufs = bufs strip_store @
                   [\<lparr>data = Some 4, index = False\<rparr>, \<lparr>data = Some 5, index = True\<rparr>],
            arrs = arrs strip_store @
                   [Float32Array [Num 7, Num 8, Num 9], Uint16Array [0, 2, 3]]\<rparr>,
          \<lparr>buffers = [4, 5], indexBuffer = Some 5,
           attributes = [(''x'', new_Attribute 0 1 False 5126 None None False)],
           glVertexArrayObjects = []\<rparr>)"
  by code_simp

text \<open>
  C5. The claim is that for every geometry two calls of \<^verbatim>\<open>interleave()\<close> in succession
  leave the buffer list and the attributes' buffer indices that one call leaves. It fails
  when the first call throws: the attribute of \<open>stale\<close> reads a released Buffer, the
  first call sets \<^verbatim>\<open>attribute.buffer = 0\<close> and then throws a TypeError in
  \<^verbatim>\<open>interleaveTypedArrays\<close> with the buffer list \<open>[1, 0]\<close> as it was; the attribute now
  reads the live Buffer, and the second call packs it and makes the buffer list \<open>[3]\<close>.
\<close>

theorem interleave_twice_after_throw:
  "interleave no_halfwords byte_sizes stale_store stale =
     Inl (TypeError,
          \<lparr>bufs = [\<lparr>data = None, index = False\<rparr>, \<lparr>data = Some 0, index = False\<rparr>,
                   \<lparr>data = Some 1, index = False\<rparr>],
           arrs = [Float32Array [Num 1], Float32Array []]\<rparr>,
          \<lparr>buffers = [1, 0], indexBuffer = None,
           attributes = [(''a'', new_Attribute 0 1 False 5126 None None False)],
           glVertexArrayObjects = []\<rparr>) \<and>
   interleave no_halfwords byte_sizes
       \<lparr>bufs = [\<lparr>data = None, index = False\<rparr>, \<lparr>data = Some 0, index = False\<rparr>,
                \<lparr>data = Some 1, index = False\<rparr>],
        arrs = [Float32Array [Num 1], Float32Array []]\<rparr>
       \<lparr>buffers = [1, 0], indexBuffer = None,
        attributes = [(''a'', new_Attribute 0 1 False 5126 None None False)],
        glVertexArrayObjects = []\<rparr> =
     Inr (\<lparr>bufs = [\<lparr>data = None, index = False\<rparr>, \<lparr>data = None, index = False\<rparr>,
                   \<lparr>data = Some 1, index = False\<rparr>, \<lparr>data = Some 3, index = False\<rparr>],
           arrs = [Float32Array [Num 1], Float32Array [], Float32Array [],
                   Float32Array [Num 1]]\<rparr>,
          \<lparr>buffers = [3], indexBuffer = None,
           attributes = [(''a'', new_Attribute 0 1 False 5126 None None False)],
           glVertexArrayObjects = []\<rparr>)"
  by code_simp

text \<open>
  C5, amended. When a call of \<^verbatim>\<open>interleave()\<close> returns, a second call on the result
  takes the fast path and returns the same store and the same geometry, so the buffer
  list and the buffer index of every attribute are those of the first call. And a call
  returns, in a store whose references are valid, exactly when it takes the fast path
  or the attributes are readable.
\<close>

theorem interleave_idempotent:
  "(\<forall>s' g'. interleave H M s g = Inr (s', g') \<longrightarrow> interleave H M s' g' = Inr (s', g')) \<and>
   (valid_refs s (buffers g) \<longrightarrow>
      ((\<exists>s' g'. interleave H M s g = Inr (s', g')) \<longleftrightarrow>
         length (buffers g) = 1 \<or> (length (buffers g) = 2 \<and> indexBuffer g \<noteq> None) \<or>
         readable s g))"
proof (intro conjI allI impI)
  fix s' g'
  assume ret: "interleave H M s g = Inr (s', g')"
  show "interleave H M s' g' = Inr (s', g')"
  proof (cases "length (buffers g) = 1 \<or> (length (buffers g) = 2 \<and> indexBuffer g \<noteq> None)")
    case True
    with ret have "s' = s" "g' = g"
      by (simp_all add: interleave_def)
    with True show ?thesis
      by (simp add: interleave_def)
  next
    case False
    with ret have "indexBuffer g' = indexBuffer g"
      and "length (buffers g') = (case indexBuffer g of None \<Rightarrow> 1 | Some ib \<Rightarrow> 2)"
      by (auto simp: interleave_def split: sum.splits option.splits prod.splits)
    then show ?thesis
      by (auto simp: interleave_def split: option.splits)
  qed
next
  assume "valid_refs s (buffers g)"
  then have "readable (fst (new_Buffer_default s)) g = readable s g"
    by (rule readable_after_default)
  with interleave_returns [of H M s g]
  show "(\<exists>s' g'. interleave H M s g = Inr (s', g')) \<longleftrightarrow>
          length (buffers g) = 1 \<or> (length (buffers g) = 2 \<and> indexBuffer g \<noteq> None) \<or>
          readable s g"
    by simp
qed

theorem interleave_idempotent_witness:
  "valid_refs duo_store (buffers duo) \<and> readable duo_store duo \<and>
   interleave no_halfwords byte_sizes duo_store duo = Inr (duo_interleaved_store, duo_interleaved) \<and>
   interleave no_halfwords byte_sizes duo_interleaved_store duo_interleaved =
     Inr (duo_interleaved_store, duo_interleaved)"
proof -
  have v: "valid_refs duo_store (buffers duo)"
    by (simp add: valid_refs_def duo_store_def duo_def)
  have r: "readable duo_store duo"
    by (simp add: readable_def duo_store_def duo_def js_nth_def data_of_def new_Attribute_def)
  have once: "interleave no_halfwords byte_sizes duo_store duo =
                Inr (duo_interleaved_store, duo_interleaved)"
    by code_simp
  from interleave_idempotent [of no_halfwords byte_sizes duo_store duo] once
  have "interleave no_halfwords byte_sizes duo_interleaved_store duo_interleaved =
          Inr (duo_interleaved_store, duo_interleaved)"
    by blast
  with v r once show ?thesis
    by simp
qed

text \<open>
  C7. No orphan index buffer. For every geometry built with the constructor and the
  operations, the index buffer, when set, is one of the buffers, and it still is after
  \<^verbatim>\<open>addAttribute\<close>, \<^verbatim>\<open>addIndex\<close> and \<^verbatim>\<open>interleave\<close> (whether the call returns or
  throws) and in the geometry that \<^verbatim>\<open>clone\<close> or \<^verbatim>\<open>merge\<close> returns.
\<close>

theorem no_orphan_index_buffer:
  assumes "reachable H M g"
  shows "index_in_buffers g \<and>
         index_in_buffers (outcome_geometry (addAttribute s g name arg sz nrm ty sd st inst)) \<and>
         index_in_buffers (outcome_geometry (addIndex s g arg)) \<and>
         index_in_buffers (outcome_geometry (interleave H M s g)) \<and>
         (\<forall>s' g'. clone s g = Inr (s', g') \<longrightarrow> index_in_buffers g') \<and>
         (\<forall>gs s' g'. merge M s gs = Inr (s', g') \<longrightarrow> index_in_buffers g')"
proof -
  from assms have inv: "index_in_buffers g"
    by (rule reachable_invariant)
  have "index_in_buffers (outcome_geometry (addAttribute s g name arg sz nrm ty sd st inst))"
    using inv by (rule addAttribute_keeps_invariant)
  moreover have "index_in_buffers (outcome_geometry (addIndex s g arg))"
    using inv by (rule addIndex_invariant)
  moreover have "index_in_buffers (outcome_geometry (interleave H M s g))"
    using inv by (rule interleave_invariant)
  moreover have "\<forall>s' g'. clone s g = Inr (s', g') \<longrightarrow> index_in_buffers g'"
    by (simp add: clone_establishes)
  moreover have "\<forall>gs s' g'. merge M s gs = Inr (s', g') \<longrightarrow> index_in_buffers g'"
    by (simp add: merge_establishes)
  ultimately show ?thesis
    using inv by simp
qed

theorem no_orphan_index_buffer_witness:
  "reachable no_halfwords byte_sizes (new_Geometry None None) \<and>
   addIndex \<lparr>bufs = [], arrs = []\<rparr> (new_Geometry None None) (JSArray [Num 0, Num 1, Num 2]) =
     Inr (\<lparr>bufs = [\<lparr>data = Some 0, index = True\<rparr>], arrs = [Uint16Array [0, 1, 2]]\<rparr>,
          \<lparr>buffers = [0], indexBuffer = Some 0, attributes = [], glVertexArrayObjects = []\<rparr>) \<and>
   index_in_buffers
     \<lparr>buffers = [0], indexBuffer = Some 0, attributes = [], glVertexArrayObjects = []\<rparr>"
proof -
  have r: "reachable no_halfwords byte_sizes (new_Geometry None None)"
    by (rule reachable.constructed)
  have call:
    "addIndex \<lparr>bufs = [], arrs = []\<rparr> (new_Geometry None None) (JSArray [Num 0, Num 1, Num 2]) =
       Inr (\<lparr>bufs = [\<lparr>data = Some 0, index = True\<rparr>], arrs = [Uint16Array [0, 1, 2]]\<rparr>,
            \<lparr>buffers = [0], indexBuffer = Some 0, attributes = [], glVertexArrayObjects = []\<rparr>)"
    by code_simp
  from no_orphan_index_buffer [OF r, where s = "\<lparr>bufs = [], arrs = []\<rparr>"
      and arg = "JSArray [Num 0, Num 1, Num 2]"]
  have "index_in_buffers (outcome_geometry
          (addIndex \<lparr>bufs = [], arrs = []\<rparr> (new_Geometry None None) (JSArray [Num 0, Num 1, Num 2])))"
    by blast
  with call r show ?thesis
    by simp
qed





text \<open>
  C4. The claim is that the merged vertex buffer of two geometries of \<open>P\<close> vertices
  has \<open>2P\<close> elements. It has as many elements as the two vertex buffers together,
  which is \<open>2P\<close> times the words per vertex: two triangles (\<open>P = 3\<close>) of two floats
  per vertex have 6 elements each, and the merged vertex buffer has 12.
\<close>

theorem merge_vertex_buffer_is_longer:
  "merge byte_sizes tri_store [tri_a, tri_b] =
     Inr (tri_merged_store,
          \<lparr>buffers = [4, 5], indexBuffer = Some 5,
           attributes = [(''aPos'', new_Attribute 0 2 False 5126 None None False)],
           glVertexArrayObjects = []\<rparr>) \<and>
   map_option ta_length (data_of tri_store 0) = Some (2 * 3) \<and>
   map_option ta_length (data_of tri_store 2) = Some (2 * 3) \<and>
   map_option ta_length (data_of tri_merged_store 4) = Some 12 \<and>
   map_option ta_length (data_of tri_merged_store 4) \<noteq> Some (2 * 3)"
  by code_simp

text \<open>
  C4, amended. Two geometries have the same layout: a vertex buffer and an index buffer,
  in the same order in both, the vertex data a \<^verbatim>\<open>Float32Array\<close> of \<open>P\<close> vertices of
  \<open>st\<close> words each, where \<open>st > 0\<close> is the stride that \<^verbatim>\<open>merge\<close> computes for the
  vertex slot from the attributes of the last geometry, and the index data the
  \<^verbatim>\<open>Uint16Array\<close> \<open>[0, 1, 2]\<close>. Then \<^verbatim>\<open>merge\<close> returns a geometry with a vertex
  buffer and an index buffer in that order; the vertex data is the data of the first
  geometry followed by that of the second, \<open>2 P st\<close> elements; and the index data is
  \<open>[0, 1, 2, P, P + 1, P + 2]\<close> in 16-bit words, that is modulo \<open>2^16\<close>.
\<close>

theorem merge_two_triangles:
  assumes layout: "(k = 0 \<and> buffers g1 = [v1, i1] \<and> buffers g2 = [v2, i2]) \<or>
                   (k = 1 \<and> buffers g1 = [i1, v1] \<and> buffers g2 = [i2, v2])"
      and ib1: "indexBuffer g1 = Some i1" and ib2: "indexBuffer g2 = Some i2" and ne: "v2 \<noteq> i2"
      and dv1: "data_of s v1 = Some (Float32Array d1)"
      and di1: "data_of s i1 = Some (Uint16Array [0, 1, 2])"
      and dv2: "data_of s v2 = Some (Float32Array d2)"
      and di2: "data_of s i2 = Some (Uint16Array [0, 1, 2])"
      and valid: "valid_refs s [v1, i1, v2, i2]"
      and strd: "slot_stride GL_SIZE_MAP (attributes g2) k (Num 0) = Num st" and pos: "0 < st"
      and P1: "of_nat (length d1) = of_nat P * st" and P2: "of_nat (length d2) = of_nat P * st"
  shows "\<exists>s' g' vo io.
           merge GL_SIZE_MAP s [g1, g2] = Inr (s', g') \<and>
           buffers g' = (if k = 0 then [vo, io] else [io, vo]) \<and>
           indexBuffer g' = Some io \<and> attributes g' = attributes g2 \<and>
           data_of s' vo = Some (Float32Array (d1 @ d2)) \<and>
           of_nat (length (d1 @ d2)) = 2 * of_nat P * st \<and>
           data_of s' io = Some (Uint16Array [0, 1, 2, of_nat P, of_nat P + 1, of_nat P + 2])"
  using layout
proof (elim disjE conjE)
  assume k: "k = 0" and b1: "buffers g1 = [v1, i1]" and b2: "buffers g2 = [v2, i2]"
  from strd k have s0: "slot_stride GL_SIZE_MAP (attributes g2) 0 (Num 0) = Num st"
    by simp
  from merge_vertex_first [OF b1 ib1 b2 ib2 ne dv1 di1 dv2 di2 valid s0 pos P1 P2] k
  show ?thesis
    by simp
next
  assume k: "k = 1" and b1: "buffers g1 = [i1, v1]" and b2: "buffers g2 = [i2, v2]"
  from strd k have s1: "slot_stride GL_SIZE_MAP (attributes g2) 1 (Num 0) = Num st"
    by simp
  from merge_index_first [OF b1 ib1 b2 ib2 ne dv1 di1 dv2 di2 valid s1 pos P1 P2] k
  show ?thesis
    by simp
qed

theorem merge_two_triangles_witness:
  "indexBuffer tri_a = Some 1 \<and> indexBuffer tri_b = Some 3 \<and>
   buffers tri_a = [0, 1] \<and> buffers tri_b = [2, 3] \<and>
   valid_refs tri_store [0, 1, 2, 3] \<and>
   slot_stride byte_sizes (attributes tri_b) 0 (Num 0) = Num 2 \<and>
   (\<exists>s' g' vo io.
      merge byte_sizes tri_store [tri_a, tri_b] = Inr (s', g') \<and> buffers g' = [vo, io] \<and>
      indexBuffer g' = Some io \<and>
      data_of s' vo = Some (Float32Array [Num 0, Num 0, Num 1, Num 0, Num 0, Num 1,
                                          Num 5, Num 5, Num 6, Num 5, Num 5, Num 6]) \<and>
      data_of s' io = Some (Uint16Array [0, 1, 2, 3, 4, 5]))"
proof -
  have layout: "((0::nat) = 0 \<and> buffers tri_a = [0, 1] \<and> buffers tri_b = [2, 3]) \<or>
                ((0::nat) = 1 \<and> buffers tri_a = [1, 0] \<and> buffers tri_b = [3, 2])"
    by (simp add: tri_a_def tri_b_def)
  have ib: "indexBuffer tri_a = Some 1" "indexBuffer tri_b = Some 3"
    by (simp_all add: tri_a_def tri_b_def)
  have ne: "(2::nat) \<noteq> 3"
    by simp
  have d: "data_of tri_store 0 = Some (Float32Array [Num 0, Num 0, Num 1, Num 0, Num 0, Num 1])"
    "data_of tri_store 1 = Some (Uint16Array [0, 1, 2])"
    "data_of tri_store 2 = Some (Float32Array [Num 5, Num 5, Num 6, Num 5, Num 5, Num 6])"
    "data_of tri_store 3 = Some (Uint16Array [0, 1, 2])"
    by (simp_all add: data_of_def tri_store_def)
  have valid: "valid_refs tri_store [0, 1, 2, 3]"
    by (simp add: valid_refs_def tri_store_def)
  have strd: "slot_stride byte_sizes (attributes tri_b) 0 (Num 0) = Num 2"
    by (simp add: tri_b_def footprint_def new_Attribute_def byte_sizes_def)
  have pos: "(0::rat) < 2"
    by simp
  have P: "of_nat (length [Num 0, Num 0, Num 1, Num 0, Num 0, Num 1]) = of_nat 3 * (2::rat)"
    "of_nat (length [Num 5, Num 5, Num 6, Num 5, Num 5, Num 6]) = of_nat 3 * (2::rat)"
    by simp_all
  from merge_two_triangles [OF layout ib ne d valid strd pos P]
  obtain s' g' vo io where
    "merge byte_sizes tri_store [tri_a, tri_b] = Inr (s', g')" "buffers g' = [vo, io]"
    "indexBuffer g' = Some io"
    "data_of s' vo = Some (Float32Array ([Num 0, Num 0, Num 1, Num 0, Num 0, Num 1] @
                                         [Num 5, Num 5, Num 6, Num 5, Num 5, Num 6]))"
    "data_of s' io = Some (Uint16Array [0, 1, 2, of_nat 3, of_nat 3 + 1, of_nat 3 + 2])"
    by auto
  then show ?thesis
    using ib layout valid strd by auto
qed

end
